theory Spec2Isabelle
  imports Main "HOL-Library.Word"
begin

section \<open>The GStreamer video decoder of spice-gtk (channel-display-gst.c)\<close>

text \<open>
  The file wraps an asynchronous GStreamer pipeline into a blocking
  one-frame-in, one-frame-out decoder. The embedding below follows the C file
  function by function.

  \<^item> A C pointer is a \<open>ptr\<close> (a natural number); \<open>NULL\<close> is 0. The one
    pointer that the file dereferences to reach fields, \<open>st->gst_dec\<close>, is an
    \<open>option\<close> of the record it points to, so that dereferencing it when it is
    \<open>NULL\<close> is a branch of the model (\<open>NullDereference\<close>).
  \<^item> The calls of the decoding thread into GLib, GStreamer and the SPICE message
    layer that create, hand over, release, lock or wait are logged, in program
    order, as \<open>gst_call\<close>s; each modelled function returns the calls it
    made. Not logged: \<open>gst_init\<close>, \<open>g_malloc0\<close>, \<open>getenv\<close>,
    \<open>g_strdup_printf\<close> and the \<open>g_free\<close> of its string,
    \<open>gst_sample_get_buffer\<close>, and the debug and warning output.
  \<^item> What the outside world answers (the environment variable, the objects
    GStreamer hands back, which callbacks the pipeline thread runs and when) is
    a parameter of the function that asks.
\<close>

type_synonym ptr = nat

abbreviation NULL :: ptr where
  "NULL \<equiv> 0"

subsection \<open>Data\<close>

text \<open>The fields of \<open>GstMapInfo\<close> that the file reads or writes.\<close>

record GstMapInfo =
  memory :: ptr
  data :: ptr

text \<open>
  \<open>struct GStreamerDecoder\<close>. The \<open>GMutex\<close> and \<open>GCond\<close> members are opaque
  to the C code; what happens to them is visible in the call log
  (\<open>G_mutex_init\<close>, \<open>G_mutex_clear\<close>, ...).
\<close>

record GStreamerDecoder =
  pipeline :: ptr
  appsrc :: ptr
  appsink :: ptr
  pipeline_wait :: int
  samples_count :: "32 word"
  sample :: ptr
  mapinfo :: GstMapInfo

text \<open>The codec identifiers that \<open>construct_pipeline\<close> switches on; any other
  value of \<open>st->codec\<close> takes the \<open>default\<close> branch.\<close>

datatype SpiceVideoCodecType =
    SPICE_VIDEO_CODEC_TYPE_MJPEG
  | SPICE_VIDEO_CODEC_TYPE_VP8
  | SPICE_VIDEO_CODEC_TYPE_H264
  | SPICE_VIDEO_CODEC_TYPE_other int

text \<open>
  The members of \<open>display_stream\<close> (declared in channel-display-priv.h) that this
  file uses. \<open>stream_get_current_frame\<close> lives in channel-display.c; the pointer
  and the size it reports for the current compressed frame are the fields
  \<open>frame_data\<close> and \<open>frame_size\<close>.
\<close>

record display_stream =
  codec :: SpiceVideoCodecType
  msg_data :: ptr
  frame_data :: ptr
  frame_size :: "32 word"
  gst_dec :: "GStreamerDecoder option"
  out_frame :: ptr

datatype GstState = GST_STATE_NULL | GST_STATE_PLAYING

datatype GstStateChangeReturn =
    GST_STATE_CHANGE_FAILURE
  | GST_STATE_CHANGE_SUCCESS
  | GST_STATE_CHANGE_ASYNC
  | GST_STATE_CHANGE_NO_PREROLL

datatype GstFlowReturn = GST_FLOW_OK | GST_FLOW_FLUSHING | GST_FLOW_EOS

text \<open>The calls the decoding thread makes, with their arguments and, for the
  calls that hand back an object, a flow status or a map info, that result
  (\<open>Gst_buffer_map s None\<close>: mapping the buffer of sample \<open>s\<close> failed). The result of
  \<open>gst_element_set_state\<close> is the field \<open>playing\<close> of \<open>gst_launch\<close>
  below (the code ignores it when it stops the pipeline).\<close>

datatype gst_call =
    G_mutex_init
  | G_cond_init
  | G_mutex_clear
  | G_cond_clear
  | G_mutex_lock
  | G_mutex_unlock
  | G_cond_wait
  | G_free_decoder
  | Gst_parse_launch_full string ptr
  | Gst_bin_get_by_name ptr string ptr
  | Gst_app_src_set_callbacks ptr
  | Gst_app_sink_set_callbacks ptr
  | Gst_element_set_state ptr GstState
  | Gst_object_unref ptr
  | Spice_msg_in_ref ptr
  | Gst_buffer_new_wrapped_full ptr "32 word" ptr
  | Gst_app_src_push_buffer ptr GstFlowReturn
  | Gst_memory_unmap ptr
  | Gst_memory_unref ptr
  | Gst_sample_unref ptr
  | Gst_app_sink_pull_sample ptr ptr
  | Gst_buffer_map ptr "GstMapInfo option"

datatype fault = NullDereference

subsection \<open>The completion signal\<close>

text \<open>
  \<open>signal_pipeline\<close> runs on a pipeline thread, entirely under
  \<open>pipeline_mutex\<close>; so does every access of the decoding thread to
  \<open>pipeline_wait\<close> and \<open>samples_count\<close>. Each run of \<open>signal_pipeline\<close> is
  therefore one atomic step on these two fields. \<open>samples_count\<close> is a
  \<open>uint32_t\<close>: the addition wraps.
\<close>

definition signal_pipeline :: "GStreamerDecoder \<Rightarrow> 32 word \<Rightarrow> GStreamerDecoder" where
  "signal_pipeline decoder samples =
     decoder\<lparr>pipeline_wait := 0, samples_count := samples_count decoder + samples\<rparr>"

definition appsrc_need_data_cb :: "GStreamerDecoder \<Rightarrow> GStreamerDecoder" where
  "appsrc_need_data_cb decoder = signal_pipeline decoder 0"

definition appsink_new_sample_cb :: "GStreamerDecoder \<Rightarrow> GStreamerDecoder \<times> GstFlowReturn" where
  "appsink_new_sample_cb decoder = (signal_pipeline decoder 1, GST_FLOW_OK)"

text \<open>The two callbacks that \<open>construct_pipeline\<close> registers, as the pipeline
  thread fires them.\<close>

datatype callback = Appsrc_need_data | Appsink_new_sample

fun fire :: "callback \<Rightarrow> GStreamerDecoder \<Rightarrow> GStreamerDecoder" where
  "fire Appsrc_need_data decoder = appsrc_need_data_cb decoder"
| "fire Appsink_new_sample decoder = fst (appsink_new_sample_cb decoder)"

subsection \<open>Building and tearing down the pipeline\<close>

definition reset_pipeline :: "GStreamerDecoder \<Rightarrow> GStreamerDecoder \<times> gst_call list" where
  "reset_pipeline decoder =
     (if pipeline decoder = NULL then (decoder, [])
      else (decoder\<lparr>pipeline := NULL\<rparr>,
            [Gst_element_set_state (pipeline decoder) GST_STATE_NULL,
             Gst_object_unref (appsrc decoder),
             Gst_object_unref (appsink decoder),
             Gst_object_unref (pipeline decoder),
             G_mutex_clear,
             G_cond_clear]))"

text \<open>Lines 98 to 123 of \<open>construct_pipeline\<close>, the \<open>switch\<close> on the codec and
  the two \<open>if\<close>s on \<open>SPICE_GST_AUTO\<close>, one function for each of the two
  local strings. \<open>None\<close> is the C \<open>NULL\<close> string, \<open>strcmp(a, b)\<close> is
  non-zero when the strings differ.\<close>

definition select_src_caps :: "SpiceVideoCodecType \<Rightarrow> string option \<Rightarrow> string" where
  "select_src_caps c gst_auto =
     (let src_caps = (case c of
              SPICE_VIDEO_CODEC_TYPE_MJPEG \<Rightarrow> Some ''caps=image/jpeg''
            | SPICE_VIDEO_CODEC_TYPE_VP8 \<Rightarrow> Some ''caps=video/x-vp8''
            | SPICE_VIDEO_CODEC_TYPE_H264 \<Rightarrow> Some ''caps=video/x-h264''
            | SPICE_VIDEO_CODEC_TYPE_other _ \<Rightarrow> None)
      in case src_caps of
           None \<Rightarrow> ''typefind=true''
         | Some caps \<Rightarrow>
             (case gst_auto of
                None \<Rightarrow> caps
              | Some a \<Rightarrow> if a \<noteq> ''decodebin'' then ''typefind=true'' else caps))"

definition select_gstdec_name :: "SpiceVideoCodecType \<Rightarrow> string option \<Rightarrow> string" where
  "select_gstdec_name c gst_auto =
     (let gstdec_name = (case c of
              SPICE_VIDEO_CODEC_TYPE_MJPEG \<Rightarrow> Some ''jpegdec''
            | SPICE_VIDEO_CODEC_TYPE_VP8 \<Rightarrow> Some ''vp8dec''
            | SPICE_VIDEO_CODEC_TYPE_H264 \<Rightarrow> Some ''h264parse ! avdec_h264''
            | SPICE_VIDEO_CODEC_TYPE_other _ \<Rightarrow> None)
      in case gstdec_name of
           None \<Rightarrow> ''decodebin''
         | Some name \<Rightarrow> (case gst_auto of None \<Rightarrow> name | Some _ \<Rightarrow> ''decodebin''))"

text \<open>The \<open>g_strdup_printf\<close> of \<open>construct_pipeline\<close> (line 126).\<close>

definition pipeline_desc :: "SpiceVideoCodecType \<Rightarrow> string option \<Rightarrow> string" where
  "pipeline_desc c gst_auto =
     ''appsrc name=src format=2 do-timestamp=1 '' @ select_src_caps c gst_auto @ '' ! '' @
     select_gstdec_name c gst_auto @
     '' ! videoconvert ! appsink name=sink caps=video/x-raw,format=BGRx''"

text \<open>What the process environment and GStreamer answer during one construction:
  the value of \<open>getenv("SPICE_GST_AUTO")\<close>, the pipeline that
  \<open>gst_parse_launch_full\<close> returns (\<open>NULL\<close> when it fails), the two
  elements that \<open>gst_bin_get_by_name\<close> returns, and the result of the move to
  \<open>GST_STATE_PLAYING\<close>.\<close>

record gst_launch =
  SPICE_GST_AUTO :: "string option"
  launched :: ptr
  src_element :: ptr
  sink_element :: ptr
  playing :: GstStateChangeReturn

definition construct_pipeline ::
  "display_stream \<Rightarrow> GStreamerDecoder \<Rightarrow> gst_launch \<Rightarrow> bool \<times> GStreamerDecoder \<times> gst_call list" where
  "construct_pipeline st decoder env =
     (let decoder1 = decoder\<lparr>pipeline_wait := 1, samples_count := 0\<rparr>;
          desc = pipeline_desc (codec st) (SPICE_GST_AUTO env);
          decoder2 = decoder1\<lparr>pipeline := launched env\<rparr>;
          t2 = [G_mutex_init, G_cond_init, Gst_parse_launch_full desc (launched env)]
      in if pipeline decoder2 = NULL then (False, decoder2, t2)
         else
           let decoder3 = decoder2\<lparr>appsrc := src_element env\<rparr>;
               decoder4 = decoder3\<lparr>appsink := sink_element env\<rparr>;
               t4 = t2 @
                 [Gst_bin_get_by_name (pipeline decoder2) ''src'' (src_element env),
                  Gst_app_src_set_callbacks (appsrc decoder3),
                  Gst_bin_get_by_name (pipeline decoder3) ''sink'' (sink_element env),
                  Gst_app_sink_set_callbacks (appsink decoder4),
                  Gst_element_set_state (pipeline decoder4) GST_STATE_PLAYING]
           in if playing env = GST_STATE_CHANGE_FAILURE
              then (let (decoder5, t5) = reset_pipeline decoder4 in (False, decoder5, t4 @ t5))
              else (True, decoder4, t4))"

text \<open>\<open>g_malloc0\<close> hands out a zeroed structure.\<close>

definition zeroed_decoder :: GStreamerDecoder where
  "zeroed_decoder =
     \<lparr>pipeline = NULL, appsrc = NULL, appsink = NULL, pipeline_wait = 0, samples_count = 0,
      sample = NULL, mapinfo = \<lparr>memory = NULL, data = NULL\<rparr>\<rparr>"

definition gst_decoder_new ::
  "display_stream \<Rightarrow> gst_launch \<Rightarrow> GStreamerDecoder option \<times> gst_call list" where
  "gst_decoder_new st env =
     (let (ok, decoder, t) = construct_pipeline st zeroed_decoder env
      in if \<not> ok then (None, t @ [G_free_decoder]) else (Some decoder, t))"

definition gst_decoder_destroy :: "GStreamerDecoder \<Rightarrow> gst_call list" where
  "gst_decoder_destroy decoder =
     (let (decoder1, t) = reset_pipeline decoder in t @ [G_free_decoder])"

subsection \<open>Pushing, releasing, pulling\<close>

definition push_compressed_buffer ::
  "display_stream \<Rightarrow> GstFlowReturn \<Rightarrow> fault + bool \<times> gst_call list" where
  "push_compressed_buffer st flow =
     (let size = frame_size st
      in if size = 0 then Inr (False, [])
         else (case gst_dec st of
                 None \<Rightarrow> Inl NullDereference
               | Some decoder \<Rightarrow>
                   let t = [Spice_msg_in_ref (msg_data st),
                            Gst_buffer_new_wrapped_full (frame_data st) size (msg_data st),
                            Gst_app_src_push_buffer (appsrc decoder) flow]
                   in if flow \<noteq> GST_FLOW_OK then Inr (False, t) else Inr (True, t)))"

definition release_last_frame :: "display_stream \<Rightarrow> fault + display_stream \<times> gst_call list" where
  "release_last_frame st =
     (case gst_dec st of
        None \<Rightarrow> Inl NullDereference
      | Some decoder \<Rightarrow>
          let (decoder1, t1) =
                (if memory (mapinfo decoder) \<noteq> NULL
                 then (decoder\<lparr>mapinfo := (mapinfo decoder)\<lparr>memory := NULL\<rparr>\<rparr>,
                       [Gst_memory_unmap (memory (mapinfo decoder)),
                        Gst_memory_unref (memory (mapinfo decoder))])
                 else (decoder, []));
              (decoder2, t2) =
                (if sample decoder1 \<noteq> NULL
                 then (decoder1\<lparr>sample := NULL\<rparr>, [Gst_sample_unref (sample decoder1)])
                 else (decoder1, []))
          in Inr (st\<lparr>gst_dec := Some decoder2, out_frame := NULL\<rparr>, t1 @ t2))"

text \<open>
  \<open>pull_raw_frame\<close>. \<open>pulled\<close> is what \<open>gst_app_sink_pull_sample\<close> returns
  (\<open>NULL\<close>: no sample); \<open>mapped\<close> is what \<open>gst_buffer_map\<close> does to the
  sample's buffer: \<open>None\<close> when it returns \<open>FALSE\<close> (the map info then holds no
  memory and is left as it was), \<open>Some info\<close> when it returns \<open>TRUE\<close> and has
  filled \<open>decoder->mapinfo\<close> with \<open>info\<close>.
\<close>

definition pull_raw_frame ::
  "display_stream \<Rightarrow> ptr \<Rightarrow> GstMapInfo option \<Rightarrow> fault + display_stream \<times> gst_call list" where
  "pull_raw_frame st pulled mapped =
     (case gst_dec st of
        None \<Rightarrow> Inl NullDereference
      | Some decoder \<Rightarrow>
          let decoder1 = decoder\<lparr>sample := pulled\<rparr>;
              t1 = [Gst_app_sink_pull_sample (appsink decoder) pulled]
          in if sample decoder1 = NULL then Inr (st\<lparr>gst_dec := Some decoder1\<rparr>, t1)
             else (case mapped of
                     None \<Rightarrow>
                       Inr (st\<lparr>gst_dec := Some decoder1\<rparr>,
                            t1 @ [Gst_buffer_map (sample decoder1) None])
                   | Some info \<Rightarrow>
                       Inr (st\<lparr>gst_dec := Some (decoder1\<lparr>mapinfo := info\<rparr>),
                               out_frame := data info\<rparr>,
                            t1 @ [Gst_buffer_map (sample decoder1) (Some info)])))"

subsection \<open>The video decoder API\<close>

definition stream_gst_init :: "display_stream \<Rightarrow> gst_launch \<Rightarrow> display_stream \<times> gst_call list" where
  "stream_gst_init st env =
     (let (decoder, t) = gst_decoder_new st env in (st\<lparr>gst_dec := decoder\<rparr>, t))"

text \<open>
  What the pipeline does during one call of \<open>stream_gst_data\<close>:
  \<^item> \<open>push_flow\<close>: the result of \<open>gst_app_src_push_buffer\<close>;
  \<^item> \<open>early\<close>: the callbacks that run after the decoding thread has armed
    \<open>pipeline_wait\<close> (line 261) and before it takes the mutex again (line 270);
  \<^item> \<open>wakes\<close>: for each successive call of \<open>g_cond_wait\<close>, the callbacks
    that run while that call has the mutex released (an empty batch is a
    spurious wake-up). When \<open>g_cond_wait\<close> is called and no batch is left, no
    notification ever comes and the call never returns;
  \<^item> \<open>pulled\<close>, \<open>mapped\<close>: the answers to \<open>pull_raw_frame\<close>.
  A callback that runs after the decoding thread has left its last critical
  section (line 279) touches only \<open>pipeline_wait\<close> and \<open>samples_count\<close>, which
  the rest of the call does not read: it is the same as one that runs after the
  call has returned, a \<open>fire\<close> step on the state the call returns.
\<close>

record pipeline_run =
  push_flow :: GstFlowReturn
  early :: "callback list"
  wakes :: "callback list list"
  pulled :: ptr
  mapped :: "GstMapInfo option"

text \<open>The loop \<open>while (decoder->pipeline_wait) g_cond_wait(...)\<close> of lines 271
  to 273. The result is the decoder when the loop exits, with the number of
  times \<open>g_cond_wait\<close> was called; \<open>None\<close> when the thread waits forever.\<close>

fun wait_loop :: "GStreamerDecoder \<Rightarrow> callback list list \<Rightarrow> (GStreamerDecoder \<times> nat) option" where
  "wait_loop decoder [] = (if pipeline_wait decoder \<noteq> 0 then None else Some (decoder, 0))"
| "wait_loop decoder (batch # batches) =
     (if pipeline_wait decoder \<noteq> 0
      then (case wait_loop (fold fire batch decoder) batches of
              None \<Rightarrow> None
            | Some (decoder', n) \<Rightarrow> Some (decoder', Suc n))
      else Some (decoder, 0))"

text \<open>The critical section of lines 270 to 279: wait, re-arm, read the count and
  take one sample from it if there is one. The second component is the local
  \<open>samples\<close>.\<close>

definition wait_for_pipeline ::
  "GStreamerDecoder \<Rightarrow> callback list list \<Rightarrow> (GStreamerDecoder \<times> 32 word \<times> gst_call list) option" where
  "wait_for_pipeline decoder batches =
     (case wait_loop decoder batches of
        None \<Rightarrow> None
      | Some (decoder1, n) \<Rightarrow>
          let decoder2 = decoder1\<lparr>pipeline_wait := 1\<rparr>;
              samples = samples_count decoder2;
              decoder3 = (if samples \<noteq> 0
                          then decoder2\<lparr>samples_count := samples_count decoder2 - 1\<rparr>
                          else decoder2)
          in Some (decoder3, samples,
                   [G_mutex_lock] @ replicate n G_cond_wait @ [G_mutex_unlock]))"

text \<open>\<open>stream_gst_data\<close>: \<open>None\<close> when the call never returns,
  \<open>Some (Inl NullDereference)\<close> when it dereferences \<open>NULL\<close>, otherwise the
  stream it leaves and the calls it made.\<close>

definition stream_gst_data ::
  "display_stream \<Rightarrow> pipeline_run \<Rightarrow> (fault + display_stream \<times> gst_call list) option" where
  "stream_gst_data st run =
     (case release_last_frame st of
        Inl f \<Rightarrow> Some (Inl f)
      | Inr (st1, t1) \<Rightarrow>
          (case gst_dec st1 of
             None \<Rightarrow> Some (Inl NullDereference)
           | Some decoder \<Rightarrow>
               let st2 = st1\<lparr>gst_dec := Some (decoder\<lparr>pipeline_wait := 1\<rparr>)\<rparr>;
                   t2 = t1 @ [G_mutex_lock, G_mutex_unlock]
               in (case push_compressed_buffer st2 (push_flow run) of
                     Inl f \<Rightarrow> Some (Inl f)
                   | Inr (pushed, t3) \<Rightarrow>
                       if pushed
                       then (case wait_for_pipeline
                                    (fold fire (early run) (decoder\<lparr>pipeline_wait := 1\<rparr>))
                                    (wakes run) of
                               None \<Rightarrow> None
                             | Some (decoder1, samples, t4) \<Rightarrow>
                                 let st3 = st2\<lparr>gst_dec := Some decoder1\<rparr>
                                 in if samples \<noteq> 0
                                    then (case pull_raw_frame st3 (pulled run) (mapped run) of
                                            Inl f \<Rightarrow> Some (Inl f)
                                          | Inr (st4, t5) \<Rightarrow> Some (Inr (st4, t2 @ t3 @ t4 @ t5)))
                                    else Some (Inr (st3, t2 @ t3 @ t4)))
                       else Some (Inr (st2, t2 @ t3)))))"

definition stream_gst_cleanup :: "display_stream \<Rightarrow> fault + display_stream \<times> gst_call list" where
  "stream_gst_cleanup st =
     (case release_last_frame st of
        Inl f \<Rightarrow> Inl f
      | Inr (st1, t1) \<Rightarrow>
          (case gst_dec st1 of
             None \<Rightarrow> Inr (st1, t1)
           | Some decoder \<Rightarrow> Inr (st1\<lparr>gst_dec := None\<rparr>, t1 @ gst_decoder_destroy decoder)))"

subsection \<open>Leases read off a call log\<close>

text \<open>
  An output frame lease is a sample reference together with the mapping of its
  buffer. \<open>gst_app_sink_pull_sample\<close> hands over a reference to the sample it
  returns and \<open>gst_sample_unref\<close> gives one back; a successful
  \<open>gst_buffer_map\<close> maps (and references) the memory it reports in the map
  info and \<open>gst_memory_unmap\<close> undoes it. Starting from the references held
  before, \<open>held_samples\<close> and \<open>held_mappings\<close> follow a call log and give the
  references held after it.
\<close>

fun sample_step :: "ptr list \<Rightarrow> gst_call \<Rightarrow> ptr list" where
  "sample_step held (Gst_app_sink_pull_sample sink s) = (if s \<noteq> NULL then s # held else held)"
| "sample_step held (Gst_sample_unref s) = remove1 s held"
| "sample_step held _ = held"

fun mapping_step :: "ptr list \<Rightarrow> gst_call \<Rightarrow> ptr list" where
  "mapping_step held (Gst_buffer_map s (Some info)) =
     (if memory info \<noteq> NULL then memory info # held else held)"
| "mapping_step held (Gst_memory_unmap m) = remove1 m held"
| "mapping_step held _ = held"

definition held_samples :: "ptr list \<Rightarrow> gst_call list \<Rightarrow> ptr list" where
  "held_samples held calls = foldl sample_step held calls"

definition held_mappings :: "ptr list \<Rightarrow> gst_call list \<Rightarrow> ptr list" where
  "held_mappings held calls = foldl mapping_step held calls"

text \<open>\<open>at_most_one step held calls\<close>: following \<open>calls\<close> with \<open>step\<close> from
  \<open>held\<close>, at most one reference is held at the start, after every call and at
  the end.\<close>

fun at_most_one :: "(ptr list \<Rightarrow> gst_call \<Rightarrow> ptr list) \<Rightarrow> ptr list \<Rightarrow> gst_call list \<Rightarrow> bool" where
  "at_most_one step held [] = (length held \<le> 1)"
| "at_most_one step held (c # calls) = (length held \<le> 1 \<and> at_most_one step (step held c) calls)"

text \<open>What the fields of a decoder say it holds.\<close>

definition decoder_samples :: "GStreamerDecoder \<Rightarrow> ptr list" where
  "decoder_samples decoder = (if sample decoder \<noteq> NULL then [sample decoder] else [])"

definition decoder_mappings :: "GStreamerDecoder \<Rightarrow> ptr list" where
  "decoder_mappings decoder =
     (if memory (mapinfo decoder) \<noteq> NULL then [memory (mapinfo decoder)] else [])"

subsection \<open>Concrete streams and pipeline runs\<close>

text \<open>A VP8 stream before \<open>stream_gst_init\<close>, holding a 10-byte compressed frame.\<close>

definition blank_stream :: display_stream where
  "blank_stream =
     \<lparr>codec = SPICE_VIDEO_CODEC_TYPE_VP8, msg_data = 10, frame_data = 11, frame_size = 10,
      gst_dec = None, out_frame = NULL\<rparr>"

definition good_launch :: gst_launch where
  "good_launch =
     \<lparr>SPICE_GST_AUTO = None, launched = 1, src_element = 2, sink_element = 3,
      playing = GST_STATE_CHANGE_SUCCESS\<rparr>"

text \<open>The decoder and the stream that \<open>stream_gst_init blank_stream good_launch\<close>
  leaves (lemma \<open>stream_gst_init_good_launch\<close>).\<close>

definition fresh_decoder :: GStreamerDecoder where
  "fresh_decoder =
     \<lparr>pipeline = 1, appsrc = 2, appsink = 3, pipeline_wait = 1, samples_count = 0,
      sample = NULL, mapinfo = \<lparr>memory = NULL, data = NULL\<rparr>\<rparr>"

definition fresh_stream :: display_stream where
  "fresh_stream = blank_stream\<lparr>gst_dec := Some fresh_decoder\<rparr>"

text \<open>The pipeline accepts the buffer and fires the new-sample callback once
  during the wait; the pull gives sample 20, mapped at 22 in memory 21.\<close>

definition run_new_sample :: pipeline_run where
  "run_new_sample =
     \<lparr>push_flow = GST_FLOW_OK, early = [], wakes = [[Appsink_new_sample]],
      pulled = 20, mapped = Some \<lparr>memory = 21, data = 22\<rparr>\<rparr>"

text \<open>The pipeline accepts the buffer and only asks for more data.\<close>

definition run_need_data :: pipeline_run where
  "run_need_data =
     \<lparr>push_flow = GST_FLOW_OK, early = [], wakes = [[Appsrc_need_data]],
      pulled = 20, mapped = Some \<lparr>memory = 21, data = 22\<rparr>\<rparr>"

text \<open>The pipeline refuses the buffer.\<close>

definition run_push_refused :: pipeline_run where
  "run_push_refused =
     \<lparr>push_flow = GST_FLOW_FLUSHING, early = [], wakes = [],
      pulled = NULL, mapped = None\<rparr>"

text \<open>A sample is announced and pulled, but its buffer cannot be mapped.\<close>

definition run_map_fails :: pipeline_run where
  "run_map_fails =
     \<lparr>push_flow = GST_FLOW_OK, early = [], wakes = [[Appsink_new_sample]],
      pulled = 20, mapped = None\<rparr>"

text \<open>The stream after one decoded frame: lease on sample 20, mapped at 22 in
  memory 21 (lemma \<open>stream_gst_data_fresh_new_sample\<close>).\<close>

definition leased_stream :: display_stream where
  "leased_stream =
     blank_stream\<lparr>gst_dec := Some (fresh_decoder\<lparr>sample := 20,
                                      mapinfo := \<lparr>memory = 21, data = 22\<rparr>\<rparr>),
                  out_frame := 22\<rparr>"

text \<open>A second frame: the new-sample callback fires once during the wait, the
  pull gives sample 30, mapped at 32 in memory 31.\<close>

definition run_next_sample :: pipeline_run where
  "run_next_sample =
     \<lparr>push_flow = GST_FLOW_OK, early = [], wakes = [[Appsink_new_sample]],
      pulled = 30, mapped = Some \<lparr>memory = 31, data = 32\<rparr>\<rparr>"

text \<open>The stream when a call woken by the need-data callback has returned and the
  new-sample callback has fired afterwards: one announced sample is pending
  (lemma \<open>pending_stream_reached\<close>).\<close>

definition pending_stream :: display_stream where
  "pending_stream =
     blank_stream\<lparr>gst_dec := Some (fresh_decoder\<lparr>pipeline_wait := 0, samples_count := 1\<rparr>)\<rparr>"

section \<open>Properties\<close>

subsection \<open>The two callbacks and the wait loop\<close>

text \<open>A callback clears the flag and, when it announces a sample, adds one to the
  count; it touches nothing else.\<close>

lemma fire_eq:
  "fire c d = d\<lparr>pipeline_wait := 0,
      samples_count := samples_count d + (if c = Appsink_new_sample then 1 else 0)\<rparr>"
  by (cases c) (simp_all add: appsrc_need_data_cb_def appsink_new_sample_cb_def signal_pipeline_def)

lemma fold_fire_Cons_eq:
  "fold fire (c # cs) d = d\<lparr>pipeline_wait := 0,
      samples_count := samples_count d + of_nat (count_list (c # cs) Appsink_new_sample)\<rparr>"
proof (induction cs arbitrary: c d)
  case Nil
  show ?case by (simp add: fire_eq)
next
  case (Cons a cs)
  have "fold fire (c # a # cs) d = fold fire (a # cs) (fire c d)" by simp
  also have "\<dots> = (fire c d)\<lparr>pipeline_wait := 0,
      samples_count := samples_count (fire c d) + of_nat (count_list (a # cs) Appsink_new_sample)\<rparr>"
    by (rule Cons.IH)
  also have "\<dots> = d\<lparr>pipeline_wait := 0,
      samples_count := samples_count d + of_nat (count_list (c # a # cs) Appsink_new_sample)\<rparr>"
    by (simp add: fire_eq add.assoc)
  finally show ?case .
qed

lemma fold_fire_eq:
  "cs \<noteq> [] \<Longrightarrow> fold fire cs d = d\<lparr>pipeline_wait := 0,
      samples_count := samples_count d + of_nat (count_list cs Appsink_new_sample)\<rparr>"
proof (cases cs)
  case Nil
  assume "cs \<noteq> []"
  with Nil show ?thesis by simp
next
  case (Cons c cs')
  then show ?thesis by (simp only: fold_fire_Cons_eq)
qed

lemma fold_fire_keeps:
  "sample (fold fire cs d) = sample d \<and> mapinfo (fold fire cs d) = mapinfo d \<and>
   appsink (fold fire cs d) = appsink d \<and> appsrc (fold fire cs d) = appsrc d \<and>
   pipeline (fold fire cs d) = pipeline d"
  by (cases cs) (simp_all only: fold_fire_Cons_eq, simp_all)

text \<open>The loop exits at once when the flag is clear; when it is set, it exits
  after the first batch that holds a callback, however many spurious wake-ups
  come before; and when no callback ever comes it does not exit.\<close>

lemma wait_loop_open: "pipeline_wait d = 0 \<Longrightarrow> wait_loop d bs = Some (d, 0)"
  by (cases bs) simp_all

lemma wait_loop_spurious:
  "pipeline_wait d \<noteq> 0 \<Longrightarrow> b \<noteq> [] \<Longrightarrow>
   wait_loop d (replicate k [] @ b # rest) = Some (fold fire b d, Suc k)"
proof (induction k)
  case 0
  then show ?case by (simp add: wait_loop_open fold_fire_eq)
next
  case (Suc k)
  then show ?case by simp
qed

lemma wait_loop_blocked:
  "pipeline_wait d \<noteq> 0 \<Longrightarrow> wait_loop d (replicate k []) = None"
  by (induction k) simp_all

lemma wait_loop_Some:
  "wait_loop d bs = Some (d', n) \<Longrightarrow>
   pipeline_wait d' = 0 \<and> sample d' = sample d \<and> mapinfo d' = mapinfo d \<and>
   appsink d' = appsink d \<and> appsrc d' = appsrc d \<and> pipeline d' = pipeline d"
proof (induction d bs arbitrary: d' n rule: wait_loop.induct)
  case (1 decoder)
  then show ?case by (simp split: if_splits)
next
  case (2 decoder batch batches)
  show ?case
  proof (cases "pipeline_wait decoder \<noteq> 0")
    case True
    with "2.prems" obtain m where w: "wait_loop (fold fire batch decoder) batches = Some (d', m)"
      by (auto split: option.splits)
    have keep: "sample (fold fire batch decoder) = sample decoder \<and>
                mapinfo (fold fire batch decoder) = mapinfo decoder \<and>
                appsink (fold fire batch decoder) = appsink decoder \<and>
                appsrc (fold fire batch decoder) = appsrc decoder \<and>
                pipeline (fold fire batch decoder) = pipeline decoder"
      by (cases batch) (simp_all only: fold_fire_Cons_eq, simp_all)
    from "2.IH"[OF True w] keep show ?thesis by simp
  next
    case False
    with "2.prems" show ?thesis by simp
  qed
qed

subsection \<open>The critical section of \<open>stream_gst_data\<close>\<close>

lemma wait_for_pipeline_Some:
  assumes "wait_for_pipeline d bs = Some (d', s, t)"
  shows "pipeline_wait d' = 1 \<and> sample d' = sample d \<and> mapinfo d' = mapinfo d \<and>
         appsink d' = appsink d \<and> appsrc d' = appsrc d \<and> pipeline d' = pipeline d"
proof -
  from assms obtain d1 n where w: "wait_loop d bs = Some (d1, n)"
    and d': "d' = (if samples_count d1 \<noteq> 0
                   then d1\<lparr>pipeline_wait := 1, samples_count := samples_count d1 - 1\<rparr>
                   else d1\<lparr>pipeline_wait := 1\<rparr>)"
    by (auto simp: wait_for_pipeline_def Let_def split: option.splits if_splits)
  from wait_loop_Some[OF w] d' show ?thesis by simp
qed

lemma wait_for_pipeline_calls:
  assumes "wait_for_pipeline d bs = Some (d', s, t)"
  shows "\<exists>n. t = G_mutex_lock # replicate n G_cond_wait @ [G_mutex_unlock]"
  using assms by (auto simp: wait_for_pipeline_def Let_def split: option.splits)

lemma wait_for_pipeline_early:
  assumes "seen \<noteq> []"
  shows "wait_for_pipeline (fold fire seen d) bs =
     Some (d\<lparr>pipeline_wait := 1,
              samples_count :=
                (if samples_count d + of_nat (count_list seen Appsink_new_sample) \<noteq> 0
                 then samples_count d + of_nat (count_list seen Appsink_new_sample) - 1
                 else 0)\<rparr>,
           samples_count d + of_nat (count_list seen Appsink_new_sample),
           [G_mutex_lock, G_mutex_unlock])"
  by (simp add: wait_for_pipeline_def fold_fire_eq[OF assms] wait_loop_open Let_def)

lemma wait_for_pipeline_woken:
  assumes "pipeline_wait d \<noteq> 0" and "seen \<noteq> []"
  shows "wait_for_pipeline d (replicate k [] @ seen # rest) =
     Some (d\<lparr>pipeline_wait := 1,
              samples_count :=
                (if samples_count d + of_nat (count_list seen Appsink_new_sample) \<noteq> 0
                 then samples_count d + of_nat (count_list seen Appsink_new_sample) - 1
                 else 0)\<rparr>,
           samples_count d + of_nat (count_list seen Appsink_new_sample),
           G_mutex_lock # replicate (Suc k) G_cond_wait @ [G_mutex_unlock])"
  by (simp add: wait_for_pipeline_def wait_loop_spurious[OF assms] fold_fire_eq[OF assms(2)] Let_def)

lemma wait_for_pipeline_blocked:
  "pipeline_wait d \<noteq> 0 \<Longrightarrow> wait_for_pipeline d (replicate k []) = None"
  by (simp add: wait_for_pipeline_def wait_loop_blocked)

subsection \<open>The paths of \<open>stream_gst_data\<close>\<close>

lemma release_last_frame_Some:
  "gst_dec st = Some d \<Longrightarrow>
   release_last_frame st =
     Inr (st\<lparr>gst_dec := Some (d\<lparr>mapinfo := (mapinfo d)\<lparr>memory := NULL\<rparr>, sample := NULL\<rparr>),
             out_frame := NULL\<rparr>,
          (if memory (mapinfo d) \<noteq> NULL
           then [Gst_memory_unmap (memory (mapinfo d)), Gst_memory_unref (memory (mapinfo d))]
           else []) @
          (if sample d \<noteq> NULL then [Gst_sample_unref (sample d)] else []))"
  by (simp add: release_last_frame_def)

lemma pull_raw_frame_Some:
  assumes "gst_dec st = Some d" and "pull_raw_frame st p m = Inr (st', t5)"
  shows "\<exists>d'. gst_dec st' = Some d' \<and> sample d' = p \<and>
     (t5 = [Gst_app_sink_pull_sample (appsink d) p] \<and> p = NULL \<and> mapinfo d' = mapinfo d \<or>
      t5 = [Gst_app_sink_pull_sample (appsink d) p, Gst_buffer_map p None] \<and> p \<noteq> NULL \<and>
        m = None \<and> mapinfo d' = mapinfo d \<or>
      (\<exists>info. t5 = [Gst_app_sink_pull_sample (appsink d) p, Gst_buffer_map p (Some info)] \<and>
        p \<noteq> NULL \<and> m = Some info \<and> mapinfo d' = info))"
  using assms by (auto simp: pull_raw_frame_def Let_def split: option.splits if_splits)

text \<open>The two paths that inject nothing, written out: the stream they leave and
  the calls they make.\<close>

lemma stream_gst_data_empty_frame:
  assumes "gst_dec st = Some d" and "frame_size st = 0"
  shows "stream_gst_data st run =
     Some (Inr (st\<lparr>gst_dec := Some (d\<lparr>mapinfo := (mapinfo d)\<lparr>memory := NULL\<rparr>, sample := NULL,
                                       pipeline_wait := 1\<rparr>),
                   out_frame := NULL\<rparr>,
          (if memory (mapinfo d) \<noteq> NULL
           then [Gst_memory_unmap (memory (mapinfo d)), Gst_memory_unref (memory (mapinfo d))]
           else []) @
          (if sample d \<noteq> NULL then [Gst_sample_unref (sample d)] else []) @
          [G_mutex_lock, G_mutex_unlock]))"
  using assms(2)
  by (simp add: stream_gst_data_def release_last_frame_Some[OF assms(1)]
      push_compressed_buffer_def Let_def)

lemma stream_gst_data_push_refused:
  assumes "gst_dec st = Some d" and "frame_size st \<noteq> 0" and "push_flow run \<noteq> GST_FLOW_OK"
  shows "stream_gst_data st run =
     Some (Inr (st\<lparr>gst_dec := Some (d\<lparr>mapinfo := (mapinfo d)\<lparr>memory := NULL\<rparr>, sample := NULL,
                                       pipeline_wait := 1\<rparr>),
                   out_frame := NULL\<rparr>,
          (if memory (mapinfo d) \<noteq> NULL
           then [Gst_memory_unmap (memory (mapinfo d)), Gst_memory_unref (memory (mapinfo d))]
           else []) @
          (if sample d \<noteq> NULL then [Gst_sample_unref (sample d)] else []) @
          [G_mutex_lock, G_mutex_unlock,
           Spice_msg_in_ref (msg_data st),
           Gst_buffer_new_wrapped_full (frame_data st) (frame_size st) (msg_data st),
           Gst_app_src_push_buffer (appsrc d) (push_flow run)]))"
  using assms(2,3)
  by (simp add: stream_gst_data_def release_last_frame_Some[OF assms(1)]
      push_compressed_buffer_def Let_def)

text \<open>The path that injects the frame.\<close>

lemma stream_gst_data_injected:
  assumes dec: "gst_dec st = Some d"
    and frame: "frame_size st \<noteq> 0"
    and push: "push_flow run = GST_FLOW_OK"
  shows "stream_gst_data st run =
     (case wait_for_pipeline
             (fold fire (early run)
                (d\<lparr>mapinfo := (mapinfo d)\<lparr>memory := NULL\<rparr>, sample := NULL, pipeline_wait := 1\<rparr>))
             (wakes run) of
        None \<Rightarrow> None
      | Some (d1, samples, t4) \<Rightarrow>
          (if samples \<noteq> 0
           then (case pull_raw_frame (st\<lparr>out_frame := NULL, gst_dec := Some d1\<rparr>)
                        (pulled run) (mapped run) of
                   Inl f \<Rightarrow> Some (Inl f)
                 | Inr (st4, t5) \<Rightarrow>
                     Some (Inr (st4,
                       ((if memory (mapinfo d) \<noteq> NULL
                         then [Gst_memory_unmap (memory (mapinfo d)),
                               Gst_memory_unref (memory (mapinfo d))]
                         else []) @
                        (if sample d \<noteq> NULL then [Gst_sample_unref (sample d)] else [])) @
                       [G_mutex_lock, G_mutex_unlock,
                        Spice_msg_in_ref (msg_data st),
                        Gst_buffer_new_wrapped_full (frame_data st) (frame_size st) (msg_data st),
                        Gst_app_src_push_buffer (appsrc d) GST_FLOW_OK] @ t4 @ t5)))
           else Some (Inr (st\<lparr>out_frame := NULL, gst_dec := Some d1\<rparr>,
                       ((if memory (mapinfo d) \<noteq> NULL
                         then [Gst_memory_unmap (memory (mapinfo d)),
                               Gst_memory_unref (memory (mapinfo d))]
                         else []) @
                        (if sample d \<noteq> NULL then [Gst_sample_unref (sample d)] else [])) @
                       [G_mutex_lock, G_mutex_unlock,
                        Spice_msg_in_ref (msg_data st),
                        Gst_buffer_new_wrapped_full (frame_data st) (frame_size st) (msg_data st),
                        Gst_app_src_push_buffer (appsrc d) GST_FLOW_OK] @ t4))))"
proof (cases "wait_for_pipeline
             (fold fire (early run)
                (d\<lparr>mapinfo := (mapinfo d)\<lparr>memory := NULL\<rparr>, sample := NULL, pipeline_wait := 1\<rparr>))
             (wakes run)")
  case None
  with frame push show ?thesis
    by (simp add: stream_gst_data_def release_last_frame_Some[OF dec] push_compressed_buffer_def
        Let_def)
next
  case (Some r)
  obtain d1 samples t4 where r: "r = (d1, samples, t4)" by (cases r)
  show ?thesis
  proof (cases "pull_raw_frame (st\<lparr>out_frame := NULL, gst_dec := Some d1\<rparr>)
                        (pulled run) (mapped run)")
    case (Inl f)
    with Some r frame push show ?thesis
      by (simp add: stream_gst_data_def release_last_frame_Some[OF dec] push_compressed_buffer_def
          Let_def)
  next
    case (Inr q)
    obtain st4 t5 where q: "q = (st4, t5)" by (cases q)
    with Inr Some r frame push show ?thesis
      by (simp add: stream_gst_data_def release_last_frame_Some[OF dec] push_compressed_buffer_def
          Let_def)
  qed
qed

lemma stream_gst_data_pushed:
  assumes dec: "gst_dec st = Some d"
    and frame: "frame_size st \<noteq> 0"
    and push: "push_flow run = GST_FLOW_OK"
    and seen: "seen \<noteq> []"
    and sched: "early run = seen \<or> (early run = [] \<and> wakes run = replicate k [] @ seen # rest)"
  shows "\<exists>t4.
     wait_for_pipeline
       (fold fire (early run)
          (d\<lparr>mapinfo := (mapinfo d)\<lparr>memory := NULL\<rparr>, sample := NULL, pipeline_wait := 1\<rparr>))
       (wakes run) =
     Some (d\<lparr>mapinfo := (mapinfo d)\<lparr>memory := NULL\<rparr>, sample := NULL, pipeline_wait := 1,
              samples_count :=
                (if samples_count d + of_nat (count_list seen Appsink_new_sample) \<noteq> 0
                 then samples_count d + of_nat (count_list seen Appsink_new_sample) - 1
                 else 0)\<rparr>,
           samples_count d + of_nat (count_list seen Appsink_new_sample), t4) \<and>
     set t4 \<subseteq> {G_mutex_lock, G_cond_wait, G_mutex_unlock}"
proof -
  let ?a = "d\<lparr>mapinfo := (mapinfo d)\<lparr>memory := NULL\<rparr>, sample := NULL, pipeline_wait := 1\<rparr>"
  from sched show ?thesis
  proof
    assume e: "early run = seen"
    show ?thesis
      by (simp add: e wait_for_pipeline_early[OF seen])
  next
    assume w: "early run = [] \<and> wakes run = replicate k [] @ seen # rest"
    have nz: "pipeline_wait ?a \<noteq> 0" by simp
    show ?thesis
      using wait_for_pipeline_woken[OF nz seen, of k rest] w by auto
  qed
qed

text \<open>A call whose buffer was accepted by a pipeline that then never fires a
  callback does not return.\<close>

lemma stream_gst_data_waits_forever:
  assumes "gst_dec st = Some d" and "frame_size st \<noteq> 0" and "push_flow run = GST_FLOW_OK"
    and "early run = []" and "wakes run = replicate k []"
  shows "stream_gst_data st run = None"
  using assms(2-)
  by (simp add: stream_gst_data_def release_last_frame_Some[OF assms(1)]
      push_compressed_buffer_def Let_def wait_for_pipeline_blocked)

text \<open>Every call that returns has begun with the calls of
  \<open>release_last_frame\<close> and the arming of the flag, and leaves the stream
  with its decoder.\<close>

lemma stream_gst_data_releases_first:
  assumes dec: "gst_dec st = Some d"
    and ret: "stream_gst_data st run = Some (Inr (st', t))"
  shows "\<exists>rest. t =
     (if memory (mapinfo d) \<noteq> NULL
      then [Gst_memory_unmap (memory (mapinfo d)), Gst_memory_unref (memory (mapinfo d))]
      else []) @
     (if sample d \<noteq> NULL then [Gst_sample_unref (sample d)] else []) @
     G_mutex_lock # G_mutex_unlock # rest"
proof -
  consider (empty) "frame_size st = 0"
    | (refused) "frame_size st \<noteq> 0" "push_flow run \<noteq> GST_FLOW_OK"
    | (injected) "frame_size st \<noteq> 0" "push_flow run = GST_FLOW_OK"
    by blast
  then show ?thesis
  proof cases
    case empty
    from ret show ?thesis
      unfolding stream_gst_data_empty_frame[OF dec empty] by auto
  next
    case refused
    from ret show ?thesis
      unfolding stream_gst_data_push_refused[OF dec refused] by auto
  next
    case injected
    from ret show ?thesis
      unfolding stream_gst_data_injected[OF dec injected]
      by (auto split: option.splits if_splits sum.splits)
  qed
qed

lemma stream_gst_data_decoder_kept:
  assumes "gst_dec st = Some d" and "stream_gst_data st run = Some (Inr (st', t))"
  shows "\<exists>d'. gst_dec st' = Some d'"
  using assms(2)
  by (auto simp: stream_gst_data_def release_last_frame_Some[OF assms(1)]
        push_compressed_buffer_def pull_raw_frame_def Let_def
      split: option.splits sum.splits if_splits prod.splits)

subsection \<open>Leases along a call log\<close>

text \<open>\<open>at_most_one\<close> says that no prefix of the log leaves two references
  held.\<close>

lemma prefixes_Cons:
  "(\<forall>n. length (foldl step h (take n (c # t))) \<le> Suc 0) \<longleftrightarrow>
   length h \<le> Suc 0 \<and> (\<forall>n. length (foldl step (step h c) (take n t)) \<le> Suc 0)"
proof
  assume a: "\<forall>n. length (foldl step h (take n (c # t))) \<le> Suc 0"
  from a[rule_format, of 0] have "length h \<le> Suc 0" by simp
  moreover have "\<forall>n. length (foldl step (step h c) (take n t)) \<le> Suc 0"
  proof
    fix n from a[rule_format, of "Suc n"]
    show "length (foldl step (step h c) (take n t)) \<le> Suc 0" by simp
  qed
  ultimately show "length h \<le> Suc 0 \<and> (\<forall>n. length (foldl step (step h c) (take n t)) \<le> Suc 0)" ..
next
  assume b: "length h \<le> Suc 0 \<and> (\<forall>n. length (foldl step (step h c) (take n t)) \<le> Suc 0)"
  show "\<forall>n. length (foldl step h (take n (c # t))) \<le> Suc 0"
  proof
    fix n show "length (foldl step h (take n (c # t))) \<le> Suc 0"
      using b by (cases n) simp_all
  qed
qed

lemma prefixes_neutral:
  assumes "\<And>c. c \<in> set t \<Longrightarrow> step h c = h"
  shows "foldl step h (take n t) = h"
  using assms
proof (induction t arbitrary: n)
  case Nil
  then show ?case by simp
next
  case (Cons c t)
  then show ?case by (cases n) simp_all
qed

lemma foldl_neutral:
  assumes "\<And>c. c \<in> set t \<Longrightarrow> step h c = h"
  shows "foldl step h t = h"
  using prefixes_neutral[of t step h "length t"] assms by simp

lemma at_most_one_prefixes:
  "at_most_one step h t \<longleftrightarrow> (\<forall>n. length (foldl step h (take n t)) \<le> 1)"
proof (induction t arbitrary: h)
  case Nil
  show ?case by simp
next
  case (Cons c t)
  have "at_most_one step h (c # t) \<longleftrightarrow>
        length h \<le> Suc 0 \<and> (\<forall>n. length (foldl step (step h c) (take n t)) \<le> Suc 0)"
    by (simp add: Cons.IH)
  also have "\<dots> \<longleftrightarrow> (\<forall>n. length (foldl step h (take n (c # t))) \<le> Suc 0)"
    by (rule prefixes_Cons[symmetric])
  finally show ?case by simp
qed

lemma at_most_one_append:
  "at_most_one step h (t1 @ t2) \<longleftrightarrow>
   at_most_one step h t1 \<and> at_most_one step (foldl step h t1) t2"
proof (induction t1 arbitrary: h)
  case Nil
  have "at_most_one step h t2 \<Longrightarrow> length h \<le> 1"
    by (cases t2) simp_all
  then show ?case by auto
next
  case (Cons c t1)
  then show ?case by auto
qed

lemma at_most_one_neutral:
  assumes "\<And>c. c \<in> set t \<Longrightarrow> step h c = h"
  shows "at_most_one step h t \<longleftrightarrow> length h \<le> 1"
  using assms by (induction t) auto

lemma waits_sample_neutral:
  "at_most_one sample_step h (replicate n G_cond_wait) \<longleftrightarrow> length h \<le> 1"
  by (rule at_most_one_neutral) simp

lemma waits_mapping_neutral:
  "at_most_one mapping_step h (replicate n G_cond_wait) \<longleftrightarrow> length h \<le> 1"
  by (rule at_most_one_neutral) simp

lemma waits_sample_neutral':
  "foldl sample_step h (replicate n G_cond_wait) = h"
  by (rule foldl_neutral) simp

lemma waits_mapping_neutral':
  "foldl mapping_step h (replicate n G_cond_wait) = h"
  by (rule foldl_neutral) simp

text \<open>One call of \<open>stream_gst_data\<close>: if the decoder's fields name what is held
  before the call, then at most one sample and one mapping are held at every
  point of the call, and the decoder's fields name what is held after it.\<close>

lemma stream_gst_data_leases:
  assumes dec: "gst_dec st = Some d"
    and ret: "stream_gst_data st run = Some (Inr (st', t))"
    and dec': "gst_dec st' = Some d'"
  shows "(\<forall>n. length (held_samples (decoder_samples d) (take n t)) \<le> 1) \<and>
     held_samples (decoder_samples d) t = decoder_samples d' \<and>
     (\<forall>n. length (held_mappings (decoder_mappings d) (take n t)) \<le> 1) \<and>
     held_mappings (decoder_mappings d) t = decoder_mappings d'"
proof -
  let ?a = "d\<lparr>mapinfo := (mapinfo d)\<lparr>memory := NULL\<rparr>, sample := NULL, pipeline_wait := 1\<rparr>"
  let ?R = "(if memory (mapinfo d) \<noteq> NULL
             then [Gst_memory_unmap (memory (mapinfo d)), Gst_memory_unref (memory (mapinfo d))]
             else []) @
            (if sample d \<noteq> NULL then [Gst_sample_unref (sample d)] else [])"
  let ?P = "[G_mutex_lock, G_mutex_unlock,
             Spice_msg_in_ref (msg_data st),
             Gst_buffer_new_wrapped_full (frame_data st) (frame_size st) (msg_data st),
             Gst_app_src_push_buffer (appsrc d) (push_flow run)]"
  note ledger = decoder_samples_def decoder_mappings_def
    at_most_one_append waits_sample_neutral waits_mapping_neutral
    waits_sample_neutral' waits_mapping_neutral'
  have goal: "at_most_one sample_step (decoder_samples d) t \<and>
     foldl sample_step (decoder_samples d) t = decoder_samples d' \<and>
     at_most_one mapping_step (decoder_mappings d) t \<and>
     foldl mapping_step (decoder_mappings d) t = decoder_mappings d' \<Longrightarrow> ?thesis"
    unfolding held_samples_def held_mappings_def at_most_one_prefixes by simp
  consider (empty) "frame_size st = 0"
    | (refused) "frame_size st \<noteq> 0" "push_flow run \<noteq> GST_FLOW_OK"
    | (injected) "frame_size st \<noteq> 0" "push_flow run = GST_FLOW_OK"
    by blast
  then show ?thesis
  proof cases
    case empty
    from ret have st': "st' = st\<lparr>gst_dec := Some ?a, out_frame := NULL\<rparr>"
      and t: "t = ?R @ [G_mutex_lock, G_mutex_unlock]"
      unfolding stream_gst_data_empty_frame[OF dec empty] by simp_all
    from dec' st' have d': "d' = ?a" by simp
    show ?thesis by (rule goal) (simp add: t d' ledger)
  next
    case refused
    from ret have st': "st' = st\<lparr>gst_dec := Some ?a, out_frame := NULL\<rparr>"
      and t: "t = ?R @ ?P"
      unfolding stream_gst_data_push_refused[OF dec refused] by simp_all
    from dec' st' have d': "d' = ?a" by simp
    show ?thesis by (rule goal) (simp add: t d' ledger)
  next
    case injected
    note inj = stream_gst_data_injected[OF dec injected]
    from ret inj obtain d1 samples t4 where
      w: "wait_for_pipeline (fold fire (early run) ?a) (wakes run) = Some (d1, samples, t4)"
      by (auto split: option.splits)
    from wait_for_pipeline_calls[OF w] obtain k where
      t4: "t4 = G_mutex_lock # replicate k G_cond_wait @ [G_mutex_unlock]" by blast
    from wait_for_pipeline_Some[OF w] fold_fire_keeps[of "early run" ?a]
    have d1: "memory (mapinfo d1) = NULL" "sample d1 = NULL" by simp_all
    show ?thesis
    proof (cases "samples = 0")
      case True
      from ret True have st': "st' = st\<lparr>out_frame := NULL, gst_dec := Some d1\<rparr>"
        and t: "t = ?R @ ?P @ t4"
        unfolding inj w using injected(2) by simp_all
      from dec' st' have d': "d' = d1" by simp
      show ?thesis using d1 by (intro goal) (simp add: t t4 d' ledger)
    next
      case False
      with ret obtain t5 where
        p: "pull_raw_frame (st\<lparr>out_frame := NULL, gst_dec := Some d1\<rparr>)
              (pulled run) (mapped run) = Inr (st', t5)"
        and t: "t = ?R @ ?P @ t4 @ t5"
        unfolding inj w using injected(2) by (auto split: sum.splits)
      have "gst_dec (st\<lparr>out_frame := NULL, gst_dec := Some d1\<rparr>) = Some d1" by simp
      from pull_raw_frame_Some[OF this p] dec'
      have shape: "sample d' = pulled run \<and>
         (t5 = [Gst_app_sink_pull_sample (appsink d1) (pulled run)] \<and> pulled run = NULL \<and>
            mapinfo d' = mapinfo d1 \<or>
          t5 = [Gst_app_sink_pull_sample (appsink d1) (pulled run),
                Gst_buffer_map (pulled run) None] \<and> pulled run \<noteq> NULL \<and>
            mapinfo d' = mapinfo d1 \<or>
          t5 = [Gst_app_sink_pull_sample (appsink d1) (pulled run),
                Gst_buffer_map (pulled run) (Some (mapinfo d'))] \<and> pulled run \<noteq> NULL)"
        by auto
      then have s': "sample d' = pulled run" by simp
      from shape consider
          (nopull) "t5 = [Gst_app_sink_pull_sample (appsink d1) (pulled run)]" "pulled run = NULL"
            "mapinfo d' = mapinfo d1"
        | (nomap) "t5 = [Gst_app_sink_pull_sample (appsink d1) (pulled run),
                Gst_buffer_map (pulled run) None]" "pulled run \<noteq> NULL"
            "mapinfo d' = mapinfo d1"
        | (mapped) "t5 = [Gst_app_sink_pull_sample (appsink d1) (pulled run),
                Gst_buffer_map (pulled run) (Some (mapinfo d'))]" "pulled run \<noteq> NULL"
        by (elim conjE disjE) simp_all
      then show ?thesis
      proof cases
        case nopull
        show ?thesis using d1 s' nopull(2,3) by (intro goal) (simp add: t t4 nopull(1) ledger)
      next
        case nomap
        show ?thesis using d1 s' nomap(2,3) by (intro goal) (simp add: t t4 nomap(1) ledger)
      next
        case mapped
        show ?thesis using d1 s' mapped(2) by (intro goal) (simp add: t t4 mapped(1) ledger)
      qed
    qed
  qed
qed

subsection \<open>Construction\<close>

text \<open>When the pipeline was built and only the move to \<open>PLAYING\<close> fails,
  \<open>construct_pipeline\<close> goes through \<open>reset_pipeline\<close>: every object it obtained
  is given back and the mutex and the condition variable are cleared.\<close>

lemma construct_pipeline_playing_fails:
  "launched env \<noteq> NULL \<Longrightarrow>
   construct_pipeline st decoder (env\<lparr>playing := GST_STATE_CHANGE_FAILURE\<rparr>) =
     (False,
      decoder\<lparr>pipeline_wait := 1, samples_count := 0, pipeline := NULL,
              appsrc := src_element env, appsink := sink_element env\<rparr>,
      [G_mutex_init, G_cond_init,
       Gst_parse_launch_full (pipeline_desc (codec st) (SPICE_GST_AUTO env)) (launched env),
       Gst_bin_get_by_name (launched env) ''src'' (src_element env),
       Gst_app_src_set_callbacks (src_element env),
       Gst_bin_get_by_name (launched env) ''sink'' (sink_element env),
       Gst_app_sink_set_callbacks (sink_element env),
       Gst_element_set_state (launched env) GST_STATE_PLAYING,
       Gst_element_set_state (launched env) GST_STATE_NULL,
       Gst_object_unref (src_element env),
       Gst_object_unref (sink_element env),
       Gst_object_unref (launched env),
       G_mutex_clear, G_cond_clear])"
  by (simp add: construct_pipeline_def Let_def reset_pipeline_def)

text \<open>\<open>reset_pipeline\<close> itself does nothing when no pipeline is recorded, so a
  second call in a row does nothing.\<close>

lemma reset_pipeline_twice:
  "reset_pipeline (fst (reset_pipeline decoder)) = (fst (reset_pipeline decoder), [])"
  by (simp add: reset_pipeline_def)

subsection \<open>The concrete streams and runs\<close>

lemmas run_defs = stream_gst_data_def release_last_frame_def push_compressed_buffer_def
  wait_for_pipeline_def pull_raw_frame_def appsrc_need_data_cb_def appsink_new_sample_cb_def
  signal_pipeline_def Let_def

lemmas example_defs = fresh_stream_def blank_stream_def fresh_decoder_def leased_stream_def
  pending_stream_def run_new_sample_def run_need_data_def run_push_refused_def
  run_map_fails_def run_next_sample_def

text \<open>\<open>fresh_stream\<close> is what a successful \<open>stream_gst_init\<close> produces.\<close>

lemma stream_gst_init_good_launch:
  "stream_gst_init blank_stream good_launch =
     (fresh_stream,
      [G_mutex_init, G_cond_init,
       Gst_parse_launch_full
         ''appsrc name=src format=2 do-timestamp=1 caps=video/x-vp8 ! vp8dec ! videoconvert ! appsink name=sink caps=video/x-raw,format=BGRx'' 1,
       Gst_bin_get_by_name 1 ''src'' 2, Gst_app_src_set_callbacks 2,
       Gst_bin_get_by_name 1 ''sink'' 3, Gst_app_sink_set_callbacks 3,
       Gst_element_set_state 1 GST_STATE_PLAYING])"
  by (simp add: stream_gst_init_def gst_decoder_new_def construct_pipeline_def Let_def
      blank_stream_def good_launch_def fresh_stream_def fresh_decoder_def zeroed_decoder_def
      pipeline_desc_def select_src_caps_def select_gstdec_name_def)

lemma stream_gst_data_fresh_new_sample:
  "stream_gst_data fresh_stream run_new_sample =
     Some (Inr (leased_stream,
       [G_mutex_lock, G_mutex_unlock, Spice_msg_in_ref 10,
        Gst_buffer_new_wrapped_full 11 10 10, Gst_app_src_push_buffer 2 GST_FLOW_OK,
        G_mutex_lock, G_cond_wait, G_mutex_unlock,
        Gst_app_sink_pull_sample 3 20,
        Gst_buffer_map 20 (Some \<lparr>memory = 21, data = 22\<rparr>)]))"
  by (simp add: run_defs example_defs)

lemma stream_gst_data_fresh_need_data:
  "stream_gst_data fresh_stream run_need_data =
     Some (Inr (fresh_stream,
       [G_mutex_lock, G_mutex_unlock, Spice_msg_in_ref 10,
        Gst_buffer_new_wrapped_full 11 10 10, Gst_app_src_push_buffer 2 GST_FLOW_OK,
        G_mutex_lock, G_cond_wait, G_mutex_unlock]))"
  by (simp add: run_defs example_defs)

lemma stream_gst_data_leased_next_sample:
  "stream_gst_data leased_stream run_next_sample =
     Some (Inr (blank_stream\<lparr>gst_dec := Some (fresh_decoder\<lparr>sample := 30,
                                      mapinfo := \<lparr>memory = 31, data = 32\<rparr>\<rparr>),
                  out_frame := 32\<rparr>,
       [Gst_memory_unmap 21, Gst_memory_unref 21, Gst_sample_unref 20,
        G_mutex_lock, G_mutex_unlock, Spice_msg_in_ref 10,
        Gst_buffer_new_wrapped_full 11 10 10, Gst_app_src_push_buffer 2 GST_FLOW_OK,
        G_mutex_lock, G_cond_wait, G_mutex_unlock,
        Gst_app_sink_pull_sample 3 30,
        Gst_buffer_map 30 (Some \<lparr>memory = 31, data = 32\<rparr>)]))"
  by (simp add: run_defs example_defs)

text \<open>\<open>pending_stream\<close> is reached from \<open>fresh_stream\<close>: the call of
  \<open>stream_gst_data_fresh_need_data\<close> returns \<open>fresh_stream\<close>, and then the
  new-sample callback fires.\<close>

lemma pending_stream_reached:
  "fresh_stream\<lparr>gst_dec := Some (fire Appsink_new_sample fresh_decoder)\<rparr> = pending_stream"
  by (simp add: run_defs example_defs)

section \<open>Claims\<close>

text \<open>
  C1 (amended). Take a call of \<open>stream_gst_data\<close> on a stream with a decoder
  whose \<open>samples_count\<close> is zero on entry, with a non-empty frame that the
  pipeline accepts. Let \<open>seen\<close> be the callbacks that have run when the wait
  ends: those of the window before the wait if there are any, otherwise those of
  the first batch that is not a spurious wake-up. If \<open>seen\<close> holds only
  need-data callbacks, the call returns with \<open>out_frame\<close> \<open>NULL\<close>, no
  sample, no mapped memory, no pull call, and the count still zero. If \<open>seen\<close>
  holds exactly one new-sample callback and the pull and the map succeed with a
  non-null data pointer, the call returns with \<open>out_frame\<close> that pointer, the
  sample and map info recorded, and the count back at zero.
\<close>

theorem stream_gst_data_outcome:
  assumes dec: "gst_dec st = Some d"
    and zero: "samples_count d = 0"
    and frame: "frame_size st \<noteq> 0"
    and push: "push_flow run = GST_FLOW_OK"
    and seen: "seen \<noteq> []"
    and sched: "early run = seen \<or> (early run = [] \<and> wakes run = replicate k [] @ seen # rest)"
  shows "(Appsink_new_sample \<notin> set seen \<longrightarrow>
            (\<exists>st' t d'. stream_gst_data st run = Some (Inr (st', t)) \<and> out_frame st' = NULL \<and>
               gst_dec st' = Some d' \<and> sample d' = NULL \<and> memory (mapinfo d') = NULL \<and>
               samples_count d' = 0 \<and> (\<forall>a s. Gst_app_sink_pull_sample a s \<notin> set t))) \<and>
         (count_list seen Appsink_new_sample = 1 \<and> pulled run \<noteq> NULL \<and>
          mapped run = Some info \<and> data info \<noteq> NULL \<longrightarrow>
            (\<exists>st' t d'. stream_gst_data st run = Some (Inr (st', t)) \<and>
               out_frame st' = data info \<and> out_frame st' \<noteq> NULL \<and>
               gst_dec st' = Some d' \<and> sample d' = pulled run \<and> mapinfo d' = info \<and>
               samples_count d' = 0))"
proof -
  from stream_gst_data_pushed[OF dec frame push seen sched]
  obtain t4 where w: "wait_for_pipeline
       (fold fire (early run)
          (d\<lparr>mapinfo := (mapinfo d)\<lparr>memory := NULL\<rparr>, sample := NULL, pipeline_wait := 1\<rparr>))
       (wakes run) =
     Some (d\<lparr>mapinfo := (mapinfo d)\<lparr>memory := NULL\<rparr>, sample := NULL, pipeline_wait := 1,
              samples_count :=
                (if samples_count d + of_nat (count_list seen Appsink_new_sample) \<noteq> 0
                 then samples_count d + of_nat (count_list seen Appsink_new_sample) - 1
                 else 0)\<rparr>,
           samples_count d + of_nat (count_list seen Appsink_new_sample), t4)"
    and t4: "set t4 \<subseteq> {G_mutex_lock, G_cond_wait, G_mutex_unlock}"
    by blast
  have none: "Appsink_new_sample \<notin> set seen \<Longrightarrow> count_list seen Appsink_new_sample = 0"
    by (simp add: count_list_0_iff)
  show ?thesis
  proof (intro conjI impI)
    assume a: "Appsink_new_sample \<notin> set seen"
    from t4 have "\<And>a s. Gst_app_sink_pull_sample a s \<notin> set t4" by auto
    then show "\<exists>st' t d'. stream_gst_data st run = Some (Inr (st', t)) \<and> out_frame st' = NULL \<and>
               gst_dec st' = Some d' \<and> sample d' = NULL \<and> memory (mapinfo d') = NULL \<and>
               samples_count d' = 0 \<and> (\<forall>a s. Gst_app_sink_pull_sample a s \<notin> set t)"
      using frame push zero
      by (simp add: stream_gst_data_def release_last_frame_Some[OF dec]
          push_compressed_buffer_def Let_def w none[OF a])
  next
    assume b: "count_list seen Appsink_new_sample = 1 \<and> pulled run \<noteq> NULL \<and>
          mapped run = Some info \<and> data info \<noteq> NULL"
    then show "\<exists>st' t d'. stream_gst_data st run = Some (Inr (st', t)) \<and>
               out_frame st' = data info \<and> out_frame st' \<noteq> NULL \<and>
               gst_dec st' = Some d' \<and> sample d' = pulled run \<and> mapinfo d' = info \<and>
               samples_count d' = 0"
      using frame push zero
      by (simp add: stream_gst_data_def release_last_frame_Some[OF dec]
          push_compressed_buffer_def pull_raw_frame_def Let_def w)
  qed
qed

theorem stream_gst_data_outcome_witness:
  "gst_dec fresh_stream = Some fresh_decoder \<and> samples_count fresh_decoder = 0 \<and>
   frame_size fresh_stream \<noteq> 0 \<and>
   push_flow run_need_data = GST_FLOW_OK \<and>
   early run_need_data = [] \<and> wakes run_need_data = replicate 0 [] @ [Appsrc_need_data] # [] \<and>
   Appsink_new_sample \<notin> set [Appsrc_need_data] \<and>
   (\<exists>st' t d'. stream_gst_data fresh_stream run_need_data = Some (Inr (st', t)) \<and>
      out_frame st' = NULL \<and> gst_dec st' = Some d' \<and> sample d' = NULL \<and>
      memory (mapinfo d') = NULL \<and> samples_count d' = 0 \<and>
      (\<forall>a s. Gst_app_sink_pull_sample a s \<notin> set t)) \<and>
   push_flow run_new_sample = GST_FLOW_OK \<and>
   early run_new_sample = [] \<and> wakes run_new_sample = replicate 0 [] @ [Appsink_new_sample] # [] \<and>
   count_list [Appsink_new_sample] Appsink_new_sample = 1 \<and>
   pulled run_new_sample \<noteq> NULL \<and>
   mapped run_new_sample = Some \<lparr>memory = 21, data = 22\<rparr> \<and>
   (\<exists>st' t d'. stream_gst_data fresh_stream run_new_sample = Some (Inr (st', t)) \<and>
      out_frame st' = 22 \<and> out_frame st' \<noteq> NULL \<and> gst_dec st' = Some d' \<and>
      sample d' = 20 \<and> mapinfo d' = \<lparr>memory = 21, data = 22\<rparr> \<and> samples_count d' = 0)"
proof -
  have dec: "gst_dec fresh_stream = Some fresh_decoder"
    and zero: "samples_count fresh_decoder = 0"
    and frame: "frame_size fresh_stream \<noteq> 0"
    by (simp_all add: fresh_stream_def blank_stream_def fresh_decoder_def)
  have push1: "push_flow run_need_data = GST_FLOW_OK"
    and e1: "early run_need_data = []"
    and w1: "wakes run_need_data = replicate 0 [] @ [Appsrc_need_data] # []"
    by (simp_all add: run_need_data_def)
  have s1: "[Appsrc_need_data] \<noteq> []" by simp
  have a1: "Appsink_new_sample \<notin> set [Appsrc_need_data]" by simp
  have push2: "push_flow run_new_sample = GST_FLOW_OK"
    and e2: "early run_new_sample = []"
    and w2: "wakes run_new_sample = replicate 0 [] @ [Appsink_new_sample] # []"
    and p2: "pulled run_new_sample \<noteq> NULL"
    and m2: "mapped run_new_sample = Some \<lparr>memory = 21, data = 22\<rparr>"
    by (simp_all add: run_new_sample_def)
  have s2: "[Appsink_new_sample] \<noteq> []" by simp
  have c2: "count_list [Appsink_new_sample] Appsink_new_sample = 1" by simp
  have n2: "data \<lparr>memory = 21, data = 22\<rparr> \<noteq> NULL" by simp
  note r1 = stream_gst_data_outcome[OF dec zero frame push1 s1 disjI2[OF conjI[OF e1 w1]],
      THEN conjunct1, rule_format, OF a1]
  note r2 = stream_gst_data_outcome[OF dec zero frame push2 s2 disjI2[OF conjI[OF e2 w2]],
      THEN conjunct2, rule_format, OF conjI[OF c2 conjI[OF p2 conjI[OF m2 n2]]]]
  from r2 have r2': "\<exists>st' t d'. stream_gst_data fresh_stream run_new_sample = Some (Inr (st', t)) \<and>
      out_frame st' = 22 \<and> out_frame st' \<noteq> NULL \<and> gst_dec st' = Some d' \<and>
      sample d' = 20 \<and> mapinfo d' = \<lparr>memory = 21, data = 22\<rparr> \<and> samples_count d' = 0"
    by (simp add: run_new_sample_def)
  show ?thesis
    by (intro conjI dec zero frame push1 e1 w1 a1 r1 push2 e2 w2 c2 p2 m2 r2')
qed

text \<open>
  C1 as stated, for every call, fails when a sample is already counted on entry.
  On \<open>pending_stream\<close> (count 1) the pipeline fires only the need-data
  callback, and the call pulls and returns a frame (\<open>out_frame\<close> 22 in
  \<open>leased_stream\<close>).
\<close>

theorem pending_sample_counterexample:
  "frame_size pending_stream = 10 \<and>
   push_flow run_need_data = GST_FLOW_OK \<and>
   early run_need_data @ concat (wakes run_need_data) = [Appsrc_need_data] \<and>
   stream_gst_data pending_stream run_need_data =
     Some (Inr (leased_stream,
       [G_mutex_lock, G_mutex_unlock, Spice_msg_in_ref 10,
        Gst_buffer_new_wrapped_full 11 10 10, Gst_app_src_push_buffer 2 GST_FLOW_OK,
        G_mutex_lock, G_cond_wait, G_mutex_unlock,
        Gst_app_sink_pull_sample 3 20,
        Gst_buffer_map 20 (Some \<lparr>memory = 21, data = 22\<rparr>)])) \<and>
   out_frame leased_stream = 22"
  by (simp add: run_defs example_defs)

text \<open>
  C2. The flag is armed (\<open>pipeline_wait = 1\<close>) and the need-data and new-sample
  callbacks both run afterwards, in either order. Both callbacks and the
  critical section of the decoding thread run under the mutex, so an
  interleaving is fixed by which callbacks, \<open>pre\<close>, have run when the
  decoding thread gets the mutex with the flag clear, and which, \<open>post\<close>, run
  later; \<open>pre\<close> cannot be empty, since the thread stays in the loop until a
  callback has run. \<open>pre\<close> runs either before the thread first takes the
  mutex or during the wait, after any number \<open>k\<close> of spurious wake-ups. In
  every case: any callback leaves the flag clear; the critical section is left
  (with the decoder \<open>d'\<close> and the local \<open>samples\<close>), and the whole call of
  \<open>stream_gst_data\<close> returns; the count is decremented only when it was
  read non-zero, so it does not wrap below zero; and once \<open>post\<close> has run the
  count plus the sample taken (if one was) is the count on entry plus one:
  the announced sample is either taken by this call or still counted. The
  equation holds in the 32-bit arithmetic of \<open>samples_count\<close>, and as an
  equation of natural numbers unless the count on entry is already
  \<open>0xFFFFFFFF\<close>.
\<close>

theorem wait_for_pipeline_both_notifications:
  assumes armed: "pipeline_wait d = 1"
    and both: "pre @ post = [Appsrc_need_data, Appsink_new_sample] \<or>
               pre @ post = [Appsink_new_sample, Appsrc_need_data]"
    and first: "pre \<noteq> []"
  shows "pipeline_wait (fire c x) = 0 \<and>
         (\<exists>d' samples.
            wait_for_pipeline (fold fire pre d) batches =
              Some (d', samples, [G_mutex_lock, G_mutex_unlock]) \<and>
            wait_for_pipeline d (replicate k [] @ pre # batches) =
              Some (d', samples, G_mutex_lock # replicate (Suc k) G_cond_wait @ [G_mutex_unlock]) \<and>
            samples = samples_count (fold fire pre d) \<and>
            samples_count d' = (if samples = 0 then 0 else samples - 1) \<and>
            unat (samples_count d') \<le> unat samples \<and>
            samples_count (fold fire post d') + (if samples = 0 then 0 else 1) =
              samples_count d + 1 \<and>
            (samples_count d \<noteq> - 1 \<longrightarrow>
               unat (samples_count (fold fire post d')) + (if samples = 0 then 0 else 1) =
                 unat (samples_count d) + 1)) \<and>
         (\<exists>st' t. stream_gst_data (st\<lparr>gst_dec := Some d\<rparr>) (run\<lparr>early := pre\<rparr>) =
            Some (Inr (st', t))) \<and>
         (\<exists>st' t. stream_gst_data (st\<lparr>gst_dec := Some d\<rparr>)
            (run\<lparr>early := [], wakes := replicate k [] @ pre # batches\<rparr>) = Some (Inr (st', t)))"
proof -
  let ?n = "samples_count d + of_nat (count_list pre Appsink_new_sample)"
  let ?d' = "d\<lparr>pipeline_wait := 1, samples_count := (if ?n \<noteq> 0 then ?n - 1 else 0)\<rparr>"
  have nz: "pipeline_wait d \<noteq> 0" using armed by simp
  have flag: "pipeline_wait (fire c x) = 0" by (simp add: fire_eq)
  have e: "wait_for_pipeline (fold fire pre d) batches = Some (?d', ?n, [G_mutex_lock, G_mutex_unlock])"
    by (rule wait_for_pipeline_early[OF first])
  have w: "wait_for_pipeline d (replicate k [] @ pre # batches) =
        Some (?d', ?n, G_mutex_lock # replicate (Suc k) G_cond_wait @ [G_mutex_unlock])"
    by (rule wait_for_pipeline_woken[OF nz first])
  have s: "?n = samples_count (fold fire pre d)"
    by (simp add: fold_fire_eq[OF first])
  have decr: "samples_count ?d' = (if ?n = 0 then 0 else ?n - 1)" by simp
  have le: "unat (samples_count ?d') \<le> unat ?n"
  proof (cases "?n = 0")
    case True
    then show ?thesis by simp
  next
    case False
    then have "unat (?n - 1) = unat ?n - 1"
      by (simp add: unat_minus_one)
    with False show ?thesis by simp
  qed
  have cnt: "count_list pre Appsink_new_sample + count_list post Appsink_new_sample = 1"
  proof -
    have "count_list (pre @ post) Appsink_new_sample = 1"
      using both by (elim disjE; simp only: ; simp)
    then show ?thesis by simp
  qed
  have total: "samples_count (fold fire post ?d') + (if ?n = 0 then 0 else 1) = samples_count d + 1"
  proof (cases "post = []")
    case True
    with cnt have "count_list pre Appsink_new_sample = 1" by simp
    with True show ?thesis by simp
  next
    case False
    define a :: "32 word" where "a = of_nat (count_list post Appsink_new_sample)"
    define b :: "32 word" where "b = of_nat (count_list pre Appsink_new_sample)"
    have ab: "b + a = 1"
      unfolding a_def b_def using cnt by (metis of_nat_add of_nat_1)
    have post: "samples_count (fold fire post ?d') = samples_count ?d' + a"
      by (simp add: fold_fire_eq[OF False] a_def)
    show ?thesis
    proof (cases "?n = 0")
      case True
      then have sb: "samples_count d + b = 0" by (simp add: b_def)
      have "a = (samples_count d + b) + a" by (simp add: sb)
      also have "\<dots> = samples_count d + (b + a)" by (simp add: add.assoc)
      finally have "a = samples_count d + 1" by (simp add: ab)
      with True post show ?thesis by simp
    next
      case nonzero: False
      have "samples_count d + b - 1 + a + 1 = samples_count d + (b + a)" by simp
      then have "samples_count d + b - 1 + a + 1 = samples_count d + 1" by (simp add: ab)
      with nonzero post show ?thesis by (simp add: b_def)
    qed
  qed
  have natural: "samples_count d \<noteq> - 1 \<longrightarrow>
      unat (samples_count (fold fire post ?d')) + (if ?n = 0 then 0 else 1) =
        unat (samples_count d) + 1"
  proof
    assume "samples_count d \<noteq> - 1"
    then have "1 + samples_count d \<noteq> 0"
      by (metis add_eq_0_iff)
    then have up: "unat (samples_count d + 1) = unat (samples_count d) + 1"
      using unatSuc[of "samples_count d"] by (simp add: add.commute)
    show "unat (samples_count (fold fire post ?d')) + (if ?n = 0 then 0 else 1) =
        unat (samples_count d) + 1"
    proof (cases "?n = 0")
      case True
      with total have "samples_count (fold fire post ?d') = samples_count d + 1" by simp
      with True up show ?thesis by simp
    next
      case False
      with total have "samples_count (fold fire post ?d') + 1 = samples_count d + 1" by simp
      then have "samples_count (fold fire post ?d') = samples_count d" by simp
      with False show ?thesis by simp
    qed
  qed
  have dec: "gst_dec (st\<lparr>gst_dec := Some d\<rparr>) = Some d" by simp
  have t1: "\<exists>st' t. stream_gst_data (st\<lparr>gst_dec := Some d\<rparr>) (run\<lparr>early := pre\<rparr>) =
      Some (Inr (st', t))"
  proof (cases "frame_size st = 0 \<or> push_flow run \<noteq> GST_FLOW_OK")
    case True
    then show ?thesis
      by (cases "frame_size st = 0")
        (simp_all add: stream_gst_data_empty_frame[OF dec] stream_gst_data_push_refused[OF dec])
  next
    case False
    then show ?thesis
      by (simp add: stream_gst_data_injected[OF dec] wait_for_pipeline_early[OF first]
          pull_raw_frame_def Let_def split: option.splits)
  qed
  have t2: "\<exists>st' t. stream_gst_data (st\<lparr>gst_dec := Some d\<rparr>)
           (run\<lparr>early := [], wakes := replicate k [] @ pre # batches\<rparr>) = Some (Inr (st', t))"
  proof (cases "frame_size st = 0 \<or> push_flow run \<noteq> GST_FLOW_OK")
    case True
    then show ?thesis
      by (cases "frame_size st = 0")
        (simp_all add: stream_gst_data_empty_frame[OF dec] stream_gst_data_push_refused[OF dec])
  next
    case False
    then show ?thesis
      by (simp add: stream_gst_data_injected[OF dec] wait_for_pipeline_woken[OF _ first]
          pull_raw_frame_def Let_def split: option.splits)
  qed
  from flag e w s decr le total natural t1 t2 show ?thesis by blast
qed

theorem wait_for_pipeline_both_notifications_witness:
  "pipeline_wait fresh_decoder = 1 \<and>
   [Appsrc_need_data] @ [Appsink_new_sample] = [Appsrc_need_data, Appsink_new_sample] \<and>
   [Appsrc_need_data] \<noteq> [] \<and>
   (\<exists>d' samples.
      wait_for_pipeline (fold fire [Appsrc_need_data] fresh_decoder) [] =
        Some (d', samples, [G_mutex_lock, G_mutex_unlock]) \<and>
      wait_for_pipeline fresh_decoder (replicate 1 [] @ [Appsrc_need_data] # []) =
        Some (d', samples, G_mutex_lock # replicate (Suc 1) G_cond_wait @ [G_mutex_unlock]) \<and>
      samples = 0 \<and> samples_count d' = 0 \<and>
      samples_count (fold fire [Appsink_new_sample] d') = 1) \<and>
   (\<exists>st' t. stream_gst_data (fresh_stream\<lparr>gst_dec := Some fresh_decoder\<rparr>)
      (run_new_sample\<lparr>early := [], wakes := replicate 1 [] @ [Appsrc_need_data] # []\<rparr>) =
      Some (Inr (st', t)))"
proof -
  have armed: "pipeline_wait fresh_decoder = 1" by (simp add: fresh_decoder_def)
  have both: "[Appsrc_need_data] @ [Appsink_new_sample] = [Appsrc_need_data, Appsink_new_sample]"
    by simp
  have first: "[Appsrc_need_data] \<noteq> []" by simp
  note r = wait_for_pipeline_both_notifications[OF armed disjI1[OF both] first,
      of Appsrc_need_data fresh_decoder "[]" 1 fresh_stream run_new_sample]
  from r obtain d' samples where
    a: "wait_for_pipeline (fold fire [Appsrc_need_data] fresh_decoder) [] =
        Some (d', samples, [G_mutex_lock, G_mutex_unlock])"
    and b: "wait_for_pipeline fresh_decoder (replicate 1 [] @ [Appsrc_need_data] # []) =
        Some (d', samples, G_mutex_lock # replicate (Suc 1) G_cond_wait @ [G_mutex_unlock])"
    and c: "samples = samples_count (fold fire [Appsrc_need_data] fresh_decoder)"
    and d: "samples_count d' = (if samples = 0 then 0 else samples - 1)"
    and e: "samples_count (fold fire [Appsink_new_sample] d') + (if samples = 0 then 0 else 1) =
              samples_count fresh_decoder + 1"
    by blast
  from c have c': "samples = 0"
    by (simp add: fresh_decoder_def appsrc_need_data_cb_def signal_pipeline_def)
  from d c' have d': "samples_count d' = 0" by simp
  from e c' have e': "samples_count (fold fire [Appsink_new_sample] d') = 1"
    by (simp add: fresh_decoder_def)
  from r have t: "\<exists>st' t. stream_gst_data (fresh_stream\<lparr>gst_dec := Some fresh_decoder\<rparr>)
      (run_new_sample\<lparr>early := [], wakes := replicate 1 [] @ [Appsrc_need_data] # []\<rparr>) =
      Some (Inr (st', t))"
    by blast
  from armed both first a b c' d' e' t show ?thesis by blast
qed

text \<open>
  On a stream with a decoder, when the current compressed frame has length
  zero, or when \<open>gst_app_src_push_buffer\<close> does not return \<open>GST_FLOW_OK\<close>,
  \<open>stream_gst_data\<close> returns with \<open>out_frame\<close> \<open>NULL\<close> whatever the pipeline
  does: it never calls \<open>g_cond_wait\<close>, it takes the mutex once (to arm the flag)
  and not a second time, its result does not depend on the callbacks of the
  run, and with an empty frame it makes no push call at all.
\<close>

lemma stream_gst_data_no_injection:
  assumes "gst_dec st = Some d"
    and "frame_size st = 0 \<or> push_flow run \<noteq> GST_FLOW_OK"
  shows "\<exists>st' t. stream_gst_data st run = Some (Inr (st', t)) \<and> out_frame st' = NULL \<and>
           G_cond_wait \<notin> set t \<and> count_list t G_mutex_lock = 1 \<and>
           (frame_size st = 0 \<longrightarrow> (\<forall>a f. Gst_app_src_push_buffer a f \<notin> set t)) \<and>
           stream_gst_data st (run\<lparr>early := e, wakes := w\<rparr>) = stream_gst_data st run"
proof (cases "frame_size st = 0")
  case True
  show ?thesis
    by (simp add: stream_gst_data_empty_frame[OF assms(1) True])
next
  case False
  with assms(2) have refused: "push_flow run \<noteq> GST_FLOW_OK" by simp
  then have refused': "push_flow (run\<lparr>early := e, wakes := w\<rparr>) \<noteq> GST_FLOW_OK" by simp
  show ?thesis
    by (simp add: stream_gst_data_push_refused[OF assms(1) False refused]
        stream_gst_data_push_refused[OF assms(1) False refused'] False)
qed

lemma stream_gst_data_no_injection_example:
  "gst_dec (fresh_stream\<lparr>frame_size := 0\<rparr>) = Some fresh_decoder \<and>
   frame_size (fresh_stream\<lparr>frame_size := 0\<rparr>) = 0 \<and>
   (\<exists>st' t. stream_gst_data (fresh_stream\<lparr>frame_size := 0\<rparr>) run_new_sample = Some (Inr (st', t)) \<and>
      out_frame st' = NULL \<and> G_cond_wait \<notin> set t \<and> count_list t G_mutex_lock = 1 \<and>
      (\<forall>a f. Gst_app_src_push_buffer a f \<notin> set t)) \<and>
   gst_dec fresh_stream = Some fresh_decoder \<and>
   push_flow run_push_refused \<noteq> GST_FLOW_OK \<and>
   (\<exists>st' t. stream_gst_data fresh_stream run_push_refused = Some (Inr (st', t)) \<and>
      out_frame st' = NULL \<and> G_cond_wait \<notin> set t \<and> count_list t G_mutex_lock = 1)"
proof -
  have d0: "gst_dec (fresh_stream\<lparr>frame_size := 0\<rparr>) = Some fresh_decoder"
    by (simp add: fresh_stream_def)
  have z: "frame_size (fresh_stream\<lparr>frame_size := 0\<rparr>) = 0" by simp
  have d1: "gst_dec fresh_stream = Some fresh_decoder"
    by (simp add: fresh_stream_def)
  have r: "push_flow run_push_refused \<noteq> GST_FLOW_OK"
    by (simp add: run_push_refused_def)
  from stream_gst_data_no_injection[OF d0 disjI1[OF z], of run_new_sample]
       stream_gst_data_no_injection[OF d1 disjI2[OF r]] d0 z d1 r
  show ?thesis by blast
qed

text \<open>
  C3 (the code differs). The size test of \<open>push_compressed_buffer\<close> (line 185)
  comes after \<open>release_last_frame\<close> (line 253), which reads
  \<open>decoder->mapinfo.memory\<close> through \<open>st->gst_dec\<close> (line 208). On the
  stream that a failed \<open>stream_gst_init\<close> leaves, a call of
  \<open>stream_gst_data\<close> with an empty compressed frame therefore does not return
  NoOutput: it dereferences \<open>NULL\<close>. So does a call whose push would be
  refused. (With a decoder both calls return at once with no frame, lemma
  \<open>stream_gst_data_no_injection\<close>.)
\<close>

theorem stream_gst_data_empty_frame_null_decoder:
  "gst_dec (fst (stream_gst_init (st\<lparr>frame_size := 0\<rparr>) (env\<lparr>launched := NULL\<rparr>))) = None \<and>
   frame_size (fst (stream_gst_init (st\<lparr>frame_size := 0\<rparr>) (env\<lparr>launched := NULL\<rparr>))) = 0 \<and>
   stream_gst_data (fst (stream_gst_init (st\<lparr>frame_size := 0\<rparr>) (env\<lparr>launched := NULL\<rparr>))) run =
     Some (Inl NullDereference) \<and>
   stream_gst_data (st\<lparr>gst_dec := None\<rparr>) (run\<lparr>push_flow := GST_FLOW_FLUSHING\<rparr>) =
     Some (Inl NullDereference)"
  by (simp add: stream_gst_init_def gst_decoder_new_def construct_pipeline_def Let_def
      stream_gst_data_def release_last_frame_def)

text \<open>
  C4 (the code differs). \<open>stream_gst_init\<close> leaves \<open>st->gst_dec\<close> \<open>NULL\<close>
  when the description does not parse or the pipeline does not start. On such a
  stream \<open>stream_gst_data\<close> is not a no-op: its first step,
  \<open>release_last_frame\<close>, reads \<open>decoder->mapinfo.memory\<close> through the
  \<open>NULL\<close> pointer.
\<close>

theorem stream_gst_data_null_decoder:
  "gst_dec (fst (stream_gst_init st (env\<lparr>launched := NULL\<rparr>))) = None \<and>
   gst_dec (fst (stream_gst_init st
      (env\<lparr>launched := Suc p, playing := GST_STATE_CHANGE_FAILURE\<rparr>))) = None \<and>
   stream_gst_data (st\<lparr>gst_dec := None\<rparr>) run = Some (Inl NullDereference)"
  by (simp add: stream_gst_init_def gst_decoder_new_def construct_pipeline_def Let_def
      reset_pipeline_def stream_gst_data_def release_last_frame_def)

text \<open>
  C5 (the code differs). \<open>stream_gst_cleanup\<close> calls \<open>release_last_frame\<close>
  before it tests \<open>st->gst_dec\<close>. On a stream without a decoder (after a failed
  \<open>stream_gst_init\<close>) it therefore dereferences \<open>NULL\<close>; and since a first
  cleanup of a stream with a decoder leaves \<open>gst_dec\<close> \<open>NULL\<close> (no lease,
  \<open>out_frame\<close> \<open>NULL\<close>), a second cleanup in a row dereferences \<open>NULL\<close> too.
\<close>

theorem stream_gst_cleanup_null_decoder:
  "stream_gst_cleanup (st\<lparr>gst_dec := None\<rparr>) = Inl NullDereference \<and>
   (\<exists>st1 t. stream_gst_cleanup (st\<lparr>gst_dec := Some d\<rparr>) = Inr (st1, t) \<and>
      gst_dec st1 = None \<and> out_frame st1 = NULL \<and>
      stream_gst_cleanup st1 = Inl NullDereference)"
  by (simp add: stream_gst_cleanup_def release_last_frame_def Let_def split: prod.splits)

text \<open>
  C6 (amended). When \<open>stream_gst_data\<close> returns after having called
  \<open>gst_app_sink_pull_sample\<close>, and the pull gave no sample or the map of the
  sample's buffer failed, \<open>out_frame\<close> is \<open>NULL\<close> and the decoder holds no
  mapped memory. Its \<open>sample\<close> field is what the pull returned: \<open>NULL\<close> when
  the pull failed, the pulled sample when only the map failed. That sample
  stays referenced until the next \<open>release_last_frame\<close> (at the start of the
  next \<open>stream_gst_data\<close> or in \<open>stream_gst_cleanup\<close>), whose only call is
  then the \<open>gst_sample_unref\<close> of it.
\<close>

theorem failed_pull_or_map:
  assumes dec: "gst_dec st = Some d"
    and ret: "stream_gst_data st run = Some (Inr (st', t))"
    and pull: "Gst_app_sink_pull_sample (appsink d) (pulled run) \<in> set t"
    and failed: "pulled run = NULL \<or> mapped run = None"
  shows "out_frame st' = NULL \<and>
         (\<exists>d' st''. gst_dec st' = Some d' \<and> memory (mapinfo d') = NULL \<and> sample d' = pulled run \<and>
            release_last_frame st' =
              Inr (st'', if pulled run \<noteq> NULL then [Gst_sample_unref (pulled run)] else []) \<and>
            gst_dec st'' = Some (d'\<lparr>sample := NULL\<rparr>))"
proof -
  let ?a = "d\<lparr>mapinfo := (mapinfo d)\<lparr>memory := NULL\<rparr>, sample := NULL, pipeline_wait := 1\<rparr>"
  have frame: "frame_size st \<noteq> 0"
  proof
    assume "frame_size st = 0"
    from ret pull show False
      unfolding stream_gst_data_empty_frame[OF dec \<open>frame_size st = 0\<close>]
      by (auto split: if_splits)
  qed
  have push: "push_flow run = GST_FLOW_OK"
  proof (rule ccontr)
    assume "push_flow run \<noteq> GST_FLOW_OK"
    from ret pull show False
      unfolding stream_gst_data_push_refused[OF dec frame \<open>push_flow run \<noteq> GST_FLOW_OK\<close>]
      by (auto split: if_splits)
  qed
  note inj = stream_gst_data_injected[OF dec frame push]
  from ret inj obtain d1 samples t4 where
    w: "wait_for_pipeline (fold fire (early run) ?a) (wakes run) = Some (d1, samples, t4)"
    by (auto split: option.splits)
  from wait_for_pipeline_calls[OF w] obtain n where
    t4: "t4 = G_mutex_lock # replicate n G_cond_wait @ [G_mutex_unlock]" by blast
  from wait_for_pipeline_Some[OF w] fold_fire_keeps[of "early run" ?a]
  have d1: "memory (mapinfo d1) = NULL" by simp
  have nz: "samples \<noteq> 0"
  proof
    assume "samples = 0"
    with ret pull show False
      unfolding inj w t4 by (auto split: if_splits)
  qed
  from ret nz obtain t5 where p: "pull_raw_frame (st\<lparr>out_frame := NULL, gst_dec := Some d1\<rparr>)
                        (pulled run) (mapped run) = Inr (st', t5)"
    unfolding inj w by (auto split: sum.splits)
  from failed p d1 show ?thesis
    by (auto simp: pull_raw_frame_def release_last_frame_def Let_def split: option.splits if_splits)
qed

theorem failed_pull_or_map_witness:
  "gst_dec fresh_stream = Some fresh_decoder \<and>
   stream_gst_data fresh_stream run_map_fails =
     Some (Inr (blank_stream\<lparr>gst_dec := Some (fresh_decoder\<lparr>sample := 20\<rparr>)\<rparr>,
       [G_mutex_lock, G_mutex_unlock, Spice_msg_in_ref 10,
        Gst_buffer_new_wrapped_full 11 10 10, Gst_app_src_push_buffer 2 GST_FLOW_OK,
        G_mutex_lock, G_cond_wait, G_mutex_unlock,
        Gst_app_sink_pull_sample 3 20,
        Gst_buffer_map 20 None])) \<and>
   mapped run_map_fails = None \<and>
   out_frame (blank_stream\<lparr>gst_dec := Some (fresh_decoder\<lparr>sample := 20\<rparr>)\<rparr>) = NULL \<and>
   (\<exists>st''. release_last_frame (blank_stream\<lparr>gst_dec := Some (fresh_decoder\<lparr>sample := 20\<rparr>)\<rparr>) =
      Inr (st'', [Gst_sample_unref 20]))"
proof -
  have dec: "gst_dec fresh_stream = Some fresh_decoder"
    by (simp add: fresh_stream_def)
  have ret: "stream_gst_data fresh_stream run_map_fails =
     Some (Inr (blank_stream\<lparr>gst_dec := Some (fresh_decoder\<lparr>sample := 20\<rparr>)\<rparr>,
       [G_mutex_lock, G_mutex_unlock, Spice_msg_in_ref 10,
        Gst_buffer_new_wrapped_full 11 10 10, Gst_app_src_push_buffer 2 GST_FLOW_OK,
        G_mutex_lock, G_cond_wait, G_mutex_unlock,
        Gst_app_sink_pull_sample 3 20,
        Gst_buffer_map 20 None]))"
    by (simp add: run_defs example_defs)
  have pull: "Gst_app_sink_pull_sample (appsink fresh_decoder) (pulled run_map_fails) \<in>
     set [G_mutex_lock, G_mutex_unlock, Spice_msg_in_ref 10,
        Gst_buffer_new_wrapped_full 11 10 10, Gst_app_src_push_buffer 2 GST_FLOW_OK,
        G_mutex_lock, G_cond_wait, G_mutex_unlock,
        Gst_app_sink_pull_sample 3 20,
        Gst_buffer_map 20 None]"
    by (simp add: fresh_decoder_def run_map_fails_def)
  have failed: "mapped run_map_fails = None" by (simp add: run_map_fails_def)
  from failed_pull_or_map[OF dec ret pull disjI2[OF failed]]
  have "out_frame (blank_stream\<lparr>gst_dec := Some (fresh_decoder\<lparr>sample := 20\<rparr>)\<rparr>) = NULL"
    and "\<exists>st''. release_last_frame (blank_stream\<lparr>gst_dec := Some (fresh_decoder\<lparr>sample := 20\<rparr>)\<rparr>) =
      Inr (st'', [Gst_sample_unref 20])"
    by (auto simp: run_map_fails_def)
  with dec ret failed show ?thesis by blast
qed

text \<open>
  C6 as stated fails when the pull succeeds and the map fails: the call returns
  with the pulled sample 20 still in \<open>decoder->sample\<close>.
\<close>

theorem map_failure_counterexample:
  "pulled run_map_fails = 20 \<and> mapped run_map_fails = None \<and>
   stream_gst_data fresh_stream run_map_fails =
     Some (Inr (blank_stream\<lparr>gst_dec := Some (fresh_decoder\<lparr>sample := 20\<rparr>)\<rparr>,
       [G_mutex_lock, G_mutex_unlock, Spice_msg_in_ref 10,
        Gst_buffer_new_wrapped_full 11 10 10, Gst_app_src_push_buffer 2 GST_FLOW_OK,
        G_mutex_lock, G_cond_wait, G_mutex_unlock,
        Gst_app_sink_pull_sample 3 20,
        Gst_buffer_map 20 None])) \<and>
   sample (fresh_decoder\<lparr>sample := 20\<rparr>) \<noteq> NULL"
  by (simp add: run_defs example_defs)

text \<open>
  C7. Take two consecutive calls of \<open>stream_gst_data\<close> that return, on a stream
  with a decoder. The second call begins with the calls of
  \<open>release_last_frame\<close> on what the first call left (unmap and unref of the
  mapped memory if there is one, unref of the sample if there is one; the
  stream then has \<open>out_frame\<close> \<open>NULL\<close> and a decoder without sample or
  mapped memory), before it arms the flag and before anything else. And along
  the calls of the two, starting from what the decoder's fields name, at no
  point are two samples or two mappings held.
\<close>

theorem one_lease_across_calls:
  assumes dec: "gst_dec st = Some d"
    and first: "stream_gst_data st run1 = Some (Inr (st1, t1))"
    and second: "stream_gst_data st1 run2 = Some (Inr (st2, t2))"
  shows "\<exists>d1 st1' rest.
           gst_dec st1 = Some d1 \<and>
           release_last_frame st1 =
             Inr (st1',
                  (if memory (mapinfo d1) \<noteq> NULL
                   then [Gst_memory_unmap (memory (mapinfo d1)),
                         Gst_memory_unref (memory (mapinfo d1))]
                   else []) @
                  (if sample d1 \<noteq> NULL then [Gst_sample_unref (sample d1)] else [])) \<and>
           out_frame st1' = NULL \<and>
           gst_dec st1' = Some (d1\<lparr>mapinfo := (mapinfo d1)\<lparr>memory := NULL\<rparr>, sample := NULL\<rparr>) \<and>
           t2 = (if memory (mapinfo d1) \<noteq> NULL
                 then [Gst_memory_unmap (memory (mapinfo d1)),
                       Gst_memory_unref (memory (mapinfo d1))]
                 else []) @
                (if sample d1 \<noteq> NULL then [Gst_sample_unref (sample d1)] else []) @
                G_mutex_lock # G_mutex_unlock # rest \<and>
           (\<forall>n. length (held_samples (decoder_samples d) (take n (t1 @ t2))) \<le> 1) \<and>
           (\<forall>n. length (held_mappings (decoder_mappings d) (take n (t1 @ t2))) \<le> 1)"
proof -
  from stream_gst_data_decoder_kept[OF dec first] obtain d1 where d1: "gst_dec st1 = Some d1" ..
  from stream_gst_data_decoder_kept[OF d1 second] obtain d2 where d2: "gst_dec st2 = Some d2" ..
  from stream_gst_data_releases_first[OF d1 second] obtain rest where
    t2: "t2 = (if memory (mapinfo d1) \<noteq> NULL
                 then [Gst_memory_unmap (memory (mapinfo d1)),
                       Gst_memory_unref (memory (mapinfo d1))]
                 else []) @
                (if sample d1 \<noteq> NULL then [Gst_sample_unref (sample d1)] else []) @
                G_mutex_lock # G_mutex_unlock # rest" ..
  note l1 = stream_gst_data_leases[OF dec first d1]
  note l2 = stream_gst_data_leases[OF d1 second d2]
  have s: "\<forall>n. length (held_samples (decoder_samples d) (take n (t1 @ t2))) \<le> 1"
    using l1 l2
    unfolding held_samples_def at_most_one_prefixes[symmetric] at_most_one_append by simp
  have m: "\<forall>n. length (held_mappings (decoder_mappings d) (take n (t1 @ t2))) \<le> 1"
    using l1 l2
    unfolding held_mappings_def at_most_one_prefixes[symmetric] at_most_one_append by simp
  from d1 t2 s m release_last_frame_Some[OF d1] show ?thesis by simp
qed

theorem one_lease_across_calls_witness:
  "gst_dec fresh_stream = Some fresh_decoder \<and>
   stream_gst_data fresh_stream run_new_sample =
     Some (Inr (leased_stream,
       [G_mutex_lock, G_mutex_unlock, Spice_msg_in_ref 10,
        Gst_buffer_new_wrapped_full 11 10 10, Gst_app_src_push_buffer 2 GST_FLOW_OK,
        G_mutex_lock, G_cond_wait, G_mutex_unlock,
        Gst_app_sink_pull_sample 3 20,
        Gst_buffer_map 20 (Some \<lparr>memory = 21, data = 22\<rparr>)])) \<and>
   stream_gst_data leased_stream run_next_sample =
     Some (Inr (blank_stream\<lparr>gst_dec := Some (fresh_decoder\<lparr>sample := 30,
                                      mapinfo := \<lparr>memory = 31, data = 32\<rparr>\<rparr>),
                  out_frame := 32\<rparr>,
       [Gst_memory_unmap 21, Gst_memory_unref 21, Gst_sample_unref 20,
        G_mutex_lock, G_mutex_unlock, Spice_msg_in_ref 10,
        Gst_buffer_new_wrapped_full 11 10 10, Gst_app_src_push_buffer 2 GST_FLOW_OK,
        G_mutex_lock, G_cond_wait, G_mutex_unlock,
        Gst_app_sink_pull_sample 3 30,
        Gst_buffer_map 30 (Some \<lparr>memory = 31, data = 32\<rparr>)])) \<and>
   (\<forall>n. length (held_samples (decoder_samples fresh_decoder) (take n
      ([G_mutex_lock, G_mutex_unlock, Spice_msg_in_ref 10,
        Gst_buffer_new_wrapped_full 11 10 10, Gst_app_src_push_buffer 2 GST_FLOW_OK,
        G_mutex_lock, G_cond_wait, G_mutex_unlock,
        Gst_app_sink_pull_sample 3 20,
        Gst_buffer_map 20 (Some \<lparr>memory = 21, data = 22\<rparr>)] @
       [Gst_memory_unmap 21, Gst_memory_unref 21, Gst_sample_unref 20,
        G_mutex_lock, G_mutex_unlock, Spice_msg_in_ref 10,
        Gst_buffer_new_wrapped_full 11 10 10, Gst_app_src_push_buffer 2 GST_FLOW_OK,
        G_mutex_lock, G_cond_wait, G_mutex_unlock,
        Gst_app_sink_pull_sample 3 30,
        Gst_buffer_map 30 (Some \<lparr>memory = 31, data = 32\<rparr>)]))) \<le> 1)"
proof -
  have dec: "gst_dec fresh_stream = Some fresh_decoder"
    by (simp add: fresh_stream_def)
  from one_lease_across_calls[OF dec stream_gst_data_fresh_new_sample
      stream_gst_data_leased_next_sample]
  have "\<forall>n. length (held_samples (decoder_samples fresh_decoder) (take n
      ([G_mutex_lock, G_mutex_unlock, Spice_msg_in_ref 10,
        Gst_buffer_new_wrapped_full 11 10 10, Gst_app_src_push_buffer 2 GST_FLOW_OK,
        G_mutex_lock, G_cond_wait, G_mutex_unlock,
        Gst_app_sink_pull_sample 3 20,
        Gst_buffer_map 20 (Some \<lparr>memory = 21, data = 22\<rparr>)] @
       [Gst_memory_unmap 21, Gst_memory_unref 21, Gst_sample_unref 20,
        G_mutex_lock, G_mutex_unlock, Spice_msg_in_ref 10,
        Gst_buffer_new_wrapped_full 11 10 10, Gst_app_src_push_buffer 2 GST_FLOW_OK,
        G_mutex_lock, G_cond_wait, G_mutex_unlock,
        Gst_app_sink_pull_sample 3 30,
        Gst_buffer_map 30 (Some \<lparr>memory = 31, data = 32\<rparr>)]))) \<le> 1"
    by blast
  with dec stream_gst_data_fresh_new_sample stream_gst_data_leased_next_sample
  show ?thesis by blast
qed

text \<open>
  C8 (amended). With \<open>SPICE_GST_AUTO\<close> unset, the description of each of the
  three codecs carries that codec's caps and decoder fragment. With
  \<open>SPICE_GST_AUTO=decodebin\<close> the decoder fragment becomes \<open>decodebin\<close> and the
  codec's caps stay: the decoder override alone. With any other value both the
  caps (\<open>typefind=true\<close>) and the decoder (\<open>decodebin\<close>) are generic. The caps
  override is never active without the decoder override.
\<close>

theorem pipeline_desc_overrides:
  "pipeline_desc SPICE_VIDEO_CODEC_TYPE_MJPEG None =
     ''appsrc name=src format=2 do-timestamp=1 caps=image/jpeg ! jpegdec ! videoconvert ! appsink name=sink caps=video/x-raw,format=BGRx'' \<and>
   pipeline_desc SPICE_VIDEO_CODEC_TYPE_VP8 None =
     ''appsrc name=src format=2 do-timestamp=1 caps=video/x-vp8 ! vp8dec ! videoconvert ! appsink name=sink caps=video/x-raw,format=BGRx'' \<and>
   pipeline_desc SPICE_VIDEO_CODEC_TYPE_H264 None =
     ''appsrc name=src format=2 do-timestamp=1 caps=video/x-h264 ! h264parse ! avdec_h264 ! videoconvert ! appsink name=sink caps=video/x-raw,format=BGRx'' \<and>
   pipeline_desc SPICE_VIDEO_CODEC_TYPE_MJPEG (Some ''decodebin'') =
     ''appsrc name=src format=2 do-timestamp=1 caps=image/jpeg ! decodebin ! videoconvert ! appsink name=sink caps=video/x-raw,format=BGRx'' \<and>
   pipeline_desc SPICE_VIDEO_CODEC_TYPE_VP8 (Some ''decodebin'') =
     ''appsrc name=src format=2 do-timestamp=1 caps=video/x-vp8 ! decodebin ! videoconvert ! appsink name=sink caps=video/x-raw,format=BGRx'' \<and>
   pipeline_desc SPICE_VIDEO_CODEC_TYPE_H264 (Some ''decodebin'') =
     ''appsrc name=src format=2 do-timestamp=1 caps=video/x-h264 ! decodebin ! videoconvert ! appsink name=sink caps=video/x-raw,format=BGRx'' \<and>
   (a \<noteq> ''decodebin'' \<longrightarrow> pipeline_desc c (Some a) =
     ''appsrc name=src format=2 do-timestamp=1 typefind=true ! decodebin ! videoconvert ! appsink name=sink caps=video/x-raw,format=BGRx'') \<and>
   (select_src_caps c g = ''typefind=true'' \<longrightarrow> select_gstdec_name c g = ''decodebin'')"
proof -
  have typefind: "select_src_caps c g = ''typefind=true'' \<longrightarrow> select_gstdec_name c g = ''decodebin''"
    by (cases c; cases g) (simp_all add: select_src_caps_def select_gstdec_name_def)
  have other: "a \<noteq> ''decodebin'' \<longrightarrow> pipeline_desc c (Some a) =
     ''appsrc name=src format=2 do-timestamp=1 typefind=true ! decodebin ! videoconvert ! appsink name=sink caps=video/x-raw,format=BGRx''"
    by (cases c) (simp_all add: pipeline_desc_def select_src_caps_def select_gstdec_name_def)
  show ?thesis
    apply (intro conjI)
           apply (simp add: pipeline_desc_def select_src_caps_def select_gstdec_name_def)
          apply (simp add: pipeline_desc_def select_src_caps_def select_gstdec_name_def)
         apply (simp add: pipeline_desc_def select_src_caps_def select_gstdec_name_def)
        apply (simp add: pipeline_desc_def select_src_caps_def select_gstdec_name_def)
       apply (simp add: pipeline_desc_def select_src_caps_def select_gstdec_name_def)
      apply (simp add: pipeline_desc_def select_src_caps_def select_gstdec_name_def)
     apply (rule other)
    apply (rule typefind)
    done
qed

theorem pipeline_desc_overrides_witness:
  "''1'' \<noteq> ''decodebin'' \<and>
   pipeline_desc SPICE_VIDEO_CODEC_TYPE_H264 (Some ''1'') =
     ''appsrc name=src format=2 do-timestamp=1 typefind=true ! decodebin ! videoconvert ! appsink name=sink caps=video/x-raw,format=BGRx'' \<and>
   select_src_caps SPICE_VIDEO_CODEC_TYPE_H264 (Some ''1'') = ''typefind=true'' \<and>
   select_gstdec_name SPICE_VIDEO_CODEC_TYPE_H264 (Some ''1'') = ''decodebin''"
proof -
  have ne: "''1'' \<noteq> ''decodebin''" by simp
  have caps: "select_src_caps SPICE_VIDEO_CODEC_TYPE_H264 (Some ''1'') = ''typefind=true''"
    by (simp add: select_src_caps_def)
  from pipeline_desc_overrides [of "''1''" SPICE_VIDEO_CODEC_TYPE_H264 "Some ''1''"] ne caps
  show ?thesis by blast
qed

text \<open>
  C8 as stated fails: the caps override cannot be switched on alone. The value
  \<open>1\<close> of \<open>SPICE_GST_AUTO\<close> switches it on for motion-JPEG and the decoder
  fragment is \<open>decodebin\<close>, and no value of the variable gives the description
  with \<open>typefind=true\<close> and \<open>jpegdec\<close>.
\<close>

theorem caps_override_alone_counterexample:
  "pipeline_desc SPICE_VIDEO_CODEC_TYPE_MJPEG (Some ''1'') =
     ''appsrc name=src format=2 do-timestamp=1 typefind=true ! decodebin ! videoconvert ! appsink name=sink caps=video/x-raw,format=BGRx'' \<and>
   \<not> (\<exists>a. pipeline_desc SPICE_VIDEO_CODEC_TYPE_MJPEG a =
     ''appsrc name=src format=2 do-timestamp=1 typefind=true ! jpegdec ! videoconvert ! appsink name=sink caps=video/x-raw,format=BGRx'')"
  by (auto simp: pipeline_desc_def select_src_caps_def select_gstdec_name_def split: option.splits)

text \<open>
  C9 (the code differs). When \<open>gst_parse_launch_full\<close> returns \<open>NULL\<close>,
  \<open>construct_pipeline\<close> returns \<open>FALSE\<close> right away: the calls it has made are
  \<open>g_mutex_init\<close>, \<open>g_cond_init\<close> and the failed launch, and
  \<open>gst_decoder_new\<close> then only frees the structure. The mutex and the condition
  variable are never cleared on this path (they are on the path where the move
  to \<open>PLAYING\<close> fails, lemma \<open>construct_pipeline_playing_fails\<close>).
\<close>

theorem construct_pipeline_parse_failure:
  "construct_pipeline st decoder (env\<lparr>launched := NULL\<rparr>) =
     (False, decoder\<lparr>pipeline_wait := 1, samples_count := 0, pipeline := NULL\<rparr>,
      [G_mutex_init, G_cond_init,
       Gst_parse_launch_full (pipeline_desc (codec st) (SPICE_GST_AUTO env)) NULL]) \<and>
   gst_decoder_new st (env\<lparr>launched := NULL\<rparr>) =
     (None,
      [G_mutex_init, G_cond_init,
       Gst_parse_launch_full (pipeline_desc (codec st) (SPICE_GST_AUTO env)) NULL,
       G_free_decoder])"
  by (simp add: gst_decoder_new_def construct_pipeline_def Let_def)

text \<open>\<open>stream_gst_data\<close> arms the flag itself before it injects (line 260):
  what the flag was on entry makes no difference to the call.\<close>

lemma stream_gst_data_arms_itself:
  "stream_gst_data (st\<lparr>gst_dec := Some (d\<lparr>pipeline_wait := w\<rparr>)\<rparr>) run =
   stream_gst_data (st\<lparr>gst_dec := Some d\<rparr>) run"
  by (simp add: stream_gst_data_def release_last_frame_def push_compressed_buffer_def Let_def)

text \<open>
  C10 (amended). Whenever \<open>stream_gst_data\<close> returns on a stream with a
  decoder, whichever path it took, the decoder the call leaves has
  \<open>pipeline_wait = 1\<close>: the flag is set at line 260 and set again at line 274
  after the loop. The flag does not stay armed until the next call: a callback
  that fires after the return clears it. The next call is protected all the
  same, because it arms the flag itself before it injects: it runs as if the
  flag had stayed armed.
\<close>

theorem stream_gst_data_leaves_flag_armed:
  assumes "gst_dec st = Some d" and "stream_gst_data st run = Some (Inr (st', t))"
  shows "\<exists>d'. gst_dec st' = Some d' \<and> pipeline_wait d' = 1 \<and>
           pipeline_wait (fire c d') = 0 \<and>
           stream_gst_data (st'\<lparr>gst_dec := Some (fire c d')\<rparr>) run' =
             stream_gst_data (st'\<lparr>gst_dec := Some ((fire c d')\<lparr>pipeline_wait := 1\<rparr>)\<rparr>) run'"
proof -
  from assms(2) obtain d' where d': "gst_dec st' = Some d'" and w: "pipeline_wait d' = 1"
    by (auto simp: stream_gst_data_def release_last_frame_Some[OF assms(1)]
        push_compressed_buffer_def pull_raw_frame_def Let_def
      split: option.splits sum.splits if_splits prod.splits dest: wait_for_pipeline_Some)
  have "pipeline_wait (fire c d') = 0" by (simp add: fire_eq)
  moreover have "stream_gst_data (st'\<lparr>gst_dec := Some (fire c d')\<rparr>) run' =
             stream_gst_data (st'\<lparr>gst_dec := Some ((fire c d')\<lparr>pipeline_wait := 1\<rparr>)\<rparr>) run'"
    by (rule stream_gst_data_arms_itself[symmetric])
  ultimately show ?thesis using d' w by simp
qed

theorem stream_gst_data_leaves_flag_armed_witness:
  "gst_dec fresh_stream = Some fresh_decoder \<and>
   stream_gst_data fresh_stream run_new_sample =
     Some (Inr (leased_stream,
       [G_mutex_lock, G_mutex_unlock, Spice_msg_in_ref 10,
        Gst_buffer_new_wrapped_full 11 10 10, Gst_app_src_push_buffer 2 GST_FLOW_OK,
        G_mutex_lock, G_cond_wait, G_mutex_unlock,
        Gst_app_sink_pull_sample 3 20,
        Gst_buffer_map 20 (Some \<lparr>memory = 21, data = 22\<rparr>)])) \<and>
   (\<exists>d'. gst_dec leased_stream = Some d' \<and> pipeline_wait d' = 1 \<and>
      pipeline_wait (fire Appsrc_need_data d') = 0 \<and>
      stream_gst_data (leased_stream\<lparr>gst_dec := Some (fire Appsrc_need_data d')\<rparr>)
          run_next_sample =
        stream_gst_data
          (leased_stream\<lparr>gst_dec := Some ((fire Appsrc_need_data d')\<lparr>pipeline_wait := 1\<rparr>)\<rparr>)
          run_next_sample)"
proof -
  have dec: "gst_dec fresh_stream = Some fresh_decoder"
    by (simp add: fresh_stream_def)
  from stream_gst_data_leaves_flag_armed[OF dec stream_gst_data_fresh_new_sample,
      of Appsrc_need_data run_next_sample]
    dec stream_gst_data_fresh_new_sample
  show ?thesis by blast
qed

text \<open>
  C10 as stated fails in its conclusion that each call begins with the flag
  already armed. The call on \<open>fresh_stream\<close> woken by the need-data callback
  returns \<open>fresh_stream\<close>, flag armed; the new-sample callback then fires,
  and the stream on which the next call begins, \<open>pending_stream\<close>, has
  \<open>pipeline_wait = 0\<close>.
\<close>

theorem callback_after_return_counterexample:
  "gst_dec fresh_stream = Some fresh_decoder \<and>
   stream_gst_data fresh_stream run_need_data =
     Some (Inr (fresh_stream,
       [G_mutex_lock, G_mutex_unlock, Spice_msg_in_ref 10,
        Gst_buffer_new_wrapped_full 11 10 10, Gst_app_src_push_buffer 2 GST_FLOW_OK,
        G_mutex_lock, G_cond_wait, G_mutex_unlock])) \<and>
   pipeline_wait fresh_decoder = 1 \<and>
   fresh_stream\<lparr>gst_dec := Some (fire Appsink_new_sample fresh_decoder)\<rparr> = pending_stream \<and>
   gst_dec pending_stream = Some (fresh_decoder\<lparr>pipeline_wait := 0, samples_count := 1\<rparr>) \<and>
   pipeline_wait (fresh_decoder\<lparr>pipeline_wait := 0, samples_count := 1\<rparr>) = 0"
  by (simp add: run_defs example_defs)

end
